theory Spec2Isabelle
  imports Complex_Main "HOL-Library.Word" "HOL-Library.Char_ord" "HOL-Library.List_Lexorder"
begin

section \<open>Data model\<close>

text \<open>
  The interfaces \<open>Todo\<close> and \<open>DailyStats\<close> of the application. Identifiers and dates are
  strings that the code only compares for equality. The text of a todo is user input and
  is kept as a list of UTF-16 code units, the unit \<open>String.prototype.trim\<close> works on.
  The fields of \<open>Todo\<close> carry the prefix \<open>todo_\<close> because \<open>date\<close> and \<open>completed\<close> are
  fields of \<open>DailyStats\<close> as well.

  The counters \<open>completed\<close> and \<open>total\<close> are integers; \<open>percentage\<close> is a rational, since
  \<open>updateContributionMap\<close> stores a quotient in it. The JavaScript numbers are doubles:
  the integer arithmetic below is exact for them below \<open>2^53\<close>, and a quotient is exact
  whenever it is a dyadic rational of that size.
\<close>

type_synonym jstext = "16 word list"

record Todo =
  todo_id :: string
  todo_text :: jstext
  todo_completed :: bool
  todo_date :: string

record DailyStats =
  date :: string
  completed :: int
  total :: int
  percentage :: rat

section \<open>Task Store (TodoApp)\<close>

text \<open>
  White space and line terminators of ECMAScript, the code units that \<open>trim\<close> strips
  from both ends of a string.
\<close>

definition isWhiteSpace :: "16 word \<Rightarrow> bool" where
  "isWhiteSpace c \<longleftrightarrow>
     c \<in> {0x0009, 0x000A, 0x000B, 0x000C, 0x000D, 0x0020, 0x00A0, 0x1680,
          0x2000, 0x2001, 0x2002, 0x2003, 0x2004, 0x2005, 0x2006, 0x2007, 0x2008, 0x2009,
          0x200A, 0x2028, 0x2029, 0x202F, 0x205F, 0x3000, 0xFEFF}"

definition trim :: "jstext \<Rightarrow> jstext" where
  "trim s = rev (dropWhile isWhiteSpace (rev (dropWhile isWhiteSpace s)))"

text \<open>
  The part of the component state that the handlers read and write: the task list and
  the content of the input field.
\<close>

record TodoApp =
  todos :: "Todo list"
  newTodo :: jstext

text \<open>
  \<open>addTodo\<close>: \<open>uuid\<close> is the result of \<open>crypto.randomUUID()\<close>, \<open>today\<close> the string
  \<open>format(startOfDay(new Date()), "yyyy-MM-dd")\<close> of the current render.
\<close>

definition addTodo :: "string \<Rightarrow> string \<Rightarrow> TodoApp \<Rightarrow> TodoApp" where
  "addTodo uuid today st =
     (if trim (newTodo st) = [] then st
      else
        let newTodoItem = \<lparr>todo_id = uuid, todo_text = newTodo st,
                           todo_completed = False, todo_date = today\<rparr>
        in st\<lparr>todos := todos st @ [newTodoItem], newTodo := []\<rparr>)"

definition toggleTodo :: "string \<Rightarrow> TodoApp \<Rightarrow> TodoApp" where
  "toggleTodo i st =
     st\<lparr>todos := map (\<lambda>todo. if todo_id todo = i
                               then todo\<lparr>todo_completed := \<not> todo_completed todo\<rparr>
                               else todo) (todos st)\<rparr>"

definition deleteTodo :: "string \<Rightarrow> TodoApp \<Rightarrow> TodoApp" where
  "deleteTodo i st = st\<lparr>todos := filter (\<lambda>todo. todo_id todo \<noteq> i) (todos st)\<rparr>"

section \<open>Stats Deriver (TodoApp)\<close>

text \<open>
  The chain of comparisons that sets the contribution level of a day after its counter
  has been incremented.
\<close>

definition level :: "int \<Rightarrow> rat" where
  "level c =
     (if c = 0 then 0
      else if c = 1 then 25
      else if c \<le> 3 then 50
      else if c \<le> 5 then 75
      else 100)"

definition emptyStat :: "string \<Rightarrow> DailyStats" where
  "emptyStat d = \<lparr>date = d, completed = 0, total = 0, percentage = 0\<rparr>"

text \<open>The re-anchoring step: \<open>[today-entry, ...newStats.slice(0, -1)]\<close> when today is missing.\<close>

definition reanchor :: "string \<Rightarrow> DailyStats list \<Rightarrow> DailyStats list" where
  "reanchor todayString stats =
     (if \<not> list_ex (\<lambda>stat. date stat = todayString) stats
      then emptyStat todayString # butlast stats
      else stats)"

definition resetCounts :: "DailyStats list \<Rightarrow> DailyStats list" where
  "resetCounts stats = map (\<lambda>stat. stat\<lparr>completed := 0, total := 0, percentage := 0\<rparr>) stats"

text \<open>\<open>statsMap\<close>: date to index; a later entry with the same date overwrites an earlier one.\<close>

definition indexMap :: "DailyStats list \<Rightarrow> (string \<rightharpoonup> nat)" where
  "indexMap stats = fold (\<lambda>(index, stat) m. m(date stat \<mapsto> index)) (enumerate 0 stats) Map.empty"

definition countTodo :: "(string \<rightharpoonup> nat) \<Rightarrow> Todo \<Rightarrow> DailyStats list \<Rightarrow> DailyStats list" where
  "countTodo statsMap todo newStats =
     (if todo_completed todo then
        (case statsMap (todo_date todo) of
           None \<Rightarrow> newStats
         | Some statIndex \<Rightarrow>
             let stat = newStats ! statIndex;
                 c = completed stat + 1
             in newStats[statIndex := stat\<lparr>completed := c, percentage := level c\<rparr>])
      else newStats)"

text \<open>
  The effect that runs whenever the task list changes. The indices stored in \<open>statsMap\<close>
  are positions of \<open>newStats\<close> itself, so the indexed read and write are in range.
\<close>

definition updateStats :: "string \<Rightarrow> Todo list \<Rightarrow> DailyStats list \<Rightarrow> DailyStats list" where
  "updateStats todayString ts stats =
     (let newStats = resetCounts (reanchor todayString stats);
          statsMap = indexMap newStats
      in fold (countTodo statsMap) ts newStats)"

section \<open>Calendar dates\<close>

text \<open>
  The code handles dates through the JavaScript \<open>Date\<close> object and the library date-fns,
  always in local time and, in the renderer, normalised by \<open>startOfDay\<close>. A date is
  modelled by its local calendar day, counted in days from 1970-01-01 (a Thursday), so
  \<open>startOfDay\<close> is the identity. The calendar is the proleptic Gregorian one of \<open>Date\<close>.
  The functions of this section belong to the runtime and to date-fns, not to the
  repository: they are written down from their documented behaviour on calendar days,
  with the month names and the number formats of the English locale.
\<close>

type_synonym Date = int

definition civil :: "Date \<Rightarrow> int \<times> int \<times> int" where
  \<comment> \<open>year, month (1 to 12) and day of the month (1 to 31) of a day number\<close>
  "civil z =
     (let z1 = z + 719468;
          era = z1 div 146097;
          doe = z1 mod 146097;
          yoe = (doe - doe div 1460 + doe div 36524 - doe div 146096) div 365;
          doy = doe - (365 * yoe + yoe div 4 - yoe div 100);
          mp = (5 * doy + 2) div 153;
          d = doy - (153 * mp + 2) div 5 + 1;
          m = (if mp < 10 then mp + 3 else mp - 9);
          y = yoe + era * 400 + (if m \<le> 2 then 1 else 0)
      in (y, m, d))"

definition getFullYear :: "Date \<Rightarrow> int" where
  "getFullYear z = fst (civil z)"

definition getMonth :: "Date \<Rightarrow> int" where
  \<comment> \<open>0 for January to 11 for December\<close>
  "getMonth z = fst (snd (civil z)) - 1"

definition getDate :: "Date \<Rightarrow> int" where
  "getDate z = snd (snd (civil z))"

definition getDay :: "Date \<Rightarrow> int" where
  \<comment> \<open>0 for Sunday to 6 for Saturday\<close>
  "getDay z = (z + 4) mod 7"

definition startOfDay :: "Date \<Rightarrow> Date" where
  "startOfDay z = z"

definition addDays :: "Date \<Rightarrow> int \<Rightarrow> Date" where
  "addDays z n = z + n"

definition subDays :: "Date \<Rightarrow> int \<Rightarrow> Date" where
  "subDays z n = z - n"

definition isSameDay :: "Date \<Rightarrow> Date \<Rightarrow> bool" where
  "isSameDay a b \<longleftrightarrow> a = b"

definition eachDayOfInterval :: "Date \<Rightarrow> Date \<Rightarrow> Date list" where
  "eachDayOfInterval start end = [start..end]"

function digits :: "int \<Rightarrow> string" where
  \<comment> \<open>the decimal digits of an integer that is not negative\<close>
  "digits n = (if n < 10 then [char_of (48 + n)] else digits (n div 10) @ [char_of (48 + n mod 10)])"
  by pat_completeness auto
termination
  by (relation "measure nat") auto

declare digits.simps [simp del]

definition numberToString :: "int \<Rightarrow> string" where
  "numberToString i = (if i < 0 then CHR ''-'' # digits (- i) else digits i)"

definition addLeadingZeros :: "int \<Rightarrow> nat \<Rightarrow> string" where
  "addLeadingZeros i w =
     (let ds = digits (abs i);
          padded = replicate (w - length ds) CHR ''0'' @ ds
      in if i < 0 then CHR ''-'' # padded else padded)"

definition format_yyyy :: "Date \<Rightarrow> string" where
  \<comment> \<open>the token \<open>yyyy\<close>: a year that is not positive is printed as the year of its era\<close>
  "format_yyyy z =
     (let signedYear = getFullYear z;
          year = (if signedYear > 0 then signedYear else 1 - signedYear)
      in addLeadingZeros year 4)"

definition format_ISO :: "Date \<Rightarrow> string" where
  \<comment> \<open>\<open>format(date, "yyyy-MM-dd")\<close>\<close>
  "format_ISO z =
     format_yyyy z @ ''-'' @ addLeadingZeros (getMonth z + 1) 2 @ ''-'' @ addLeadingZeros (getDate z) 2"

definition monthNames :: "string list" where
  "monthNames = [''January'', ''February'', ''March'', ''April'', ''May'', ''June'', ''July'',
                 ''August'', ''September'', ''October'', ''November'', ''December'']"

definition format_MMMM :: "Date \<Rightarrow> string" where
  "format_MMMM z = monthNames ! nat (getMonth z)"

definition format_MMM :: "Date \<Rightarrow> string" where
  \<comment> \<open>\<open>format(date, "MMM")\<close>: the abbreviated month name of the English locale\<close>
  "format_MMM z = take 3 (format_MMMM z)"

definition format_long :: "Date \<Rightarrow> string" where
  \<comment> \<open>\<open>format(date, "MMMM d, yyyy")\<close>\<close>
  "format_long z = format_MMMM z @ '' '' @ numberToString (getDate z) @ '', '' @ format_yyyy z"

section \<open>Seeding and loading (TodoApp)\<close>

text \<open>
  The constant \<open>today\<close> of the component, \<open>format(startOfDay(new Date()), "yyyy-MM-dd")\<close>,
  which \<open>addTodo\<close> stores as the date of a new task.
\<close>

definition today_TodoApp :: "Date \<Rightarrow> string" where
  "today_TodoApp now = format_ISO (startOfDay now)"

text \<open>
  The list that the mount effect builds when nothing is stored: 365 entries, counting
  backwards from today.
\<close>

definition initialStats :: "Date \<Rightarrow> DailyStats list" where
  "initialStats now = map (\<lambda>i. emptyStat (format_ISO (subDays now i))) [0..364]"

text \<open>
  Local storage maps a key to a string. \<open>getItem\<close> gives \<open>null\<close> for a missing key, and the
  code tests the result for truthiness, which the empty string fails as well.

  \<open>JSON.parse\<close> belongs to the runtime and is a parameter of the model: it returns the
  parsed list, or \<open>None\<close> where \<open>JSON.parse\<close> throws a \<open>SyntaxError\<close>.
\<close>

type_synonym Storage = "string \<rightharpoonup> string"

datatype error = SyntaxError

definition truthy :: "string option \<Rightarrow> bool" where
  "truthy v \<longleftrightarrow> (case v of None \<Rightarrow> False | Some s \<Rightarrow> s \<noteq> [])"

text \<open>
  The mount effect of \<open>TodoApp\<close>: it calls \<open>JSON.parse\<close> with no handler, so an exception
  leaves the effect at the call. The result is the pair of the task list and the stat
  list that the effect sets; a list that it does not set keeps the initial state \<open>[]\<close>.
\<close>

definition loadTodoApp ::
  "(string \<Rightarrow> Todo list option) \<Rightarrow> (string \<Rightarrow> DailyStats list option) \<Rightarrow> Date \<Rightarrow> Storage
     \<Rightarrow> error + (Todo list \<times> DailyStats list)" where
  "loadTodoApp parseTodos parseStats now storage =
     (let savedTodos = storage ''todos'';
          savedStats = storage ''stats'';
          r1 = (if truthy savedTodos
                then (case parseTodos (the savedTodos) of None \<Rightarrow> Inl SyntaxError | Some ts \<Rightarrow> Inr ts)
                else Inr [])
      in case r1 of
           Inl e \<Rightarrow> Inl e
         | Inr ts \<Rightarrow>
             (if truthy savedStats
              then (case parseStats (the savedStats) of
                      None \<Rightarrow> Inl SyntaxError
                    | Some ss \<Rightarrow> Inr (ts, ss))
              else Inr (ts, initialStats now)))"

section \<open>Calendar Renderer (components/contribution-map.tsx)\<close>

definition LOCAL_STORAGE_KEY :: string where
  "LOCAL_STORAGE_KEY = ''contribution-tracker-stats''"

text \<open>
  The mount effect of the component: both calls of \<open>JSON.parse\<close> sit in a \<open>try\<close> whose
  handler only logs, so the state keeps the \<open>stats\<close> property it was initialised with.
\<close>

definition mountContributionMap ::
  "(string \<Rightarrow> DailyStats list option) \<Rightarrow> DailyStats list \<Rightarrow> Storage \<Rightarrow> DailyStats list" where
  "mountContributionMap parseStats initStats storage =
     (let savedStats = storage LOCAL_STORAGE_KEY;
          appStats = storage ''stats''
      in if truthy savedStats
         then (case parseStats (the savedStats) of Some ss \<Rightarrow> ss | None \<Rightarrow> initStats)
         else if truthy appStats
         then (case parseStats (the appStats) of Some ss \<Rightarrow> ss | None \<Rightarrow> initStats)
         else initStats)"

fun findIndexFrom :: "int \<Rightarrow> ('a \<Rightarrow> bool) \<Rightarrow> 'a list \<Rightarrow> int" where
  "findIndexFrom i P [] = - 1"
| "findIndexFrom i P (x # xs) = (if P x then i else findIndexFrom (i + 1) P xs)"

definition findIndex :: "('a \<Rightarrow> bool) \<Rightarrow> 'a list \<Rightarrow> int" where
  "findIndex P xs = findIndexFrom 0 P xs"

text \<open>
  The state update of \<open>window.updateContributionMap\<close>; \<open>today\<close> is
  \<open>format(new Date(), "yyyy-MM-dd")\<close>. The update also writes the new list to local
  storage; the model returns the new state only.
\<close>

definition updateContributionMap :: "bool \<Rightarrow> string \<Rightarrow> DailyStats list \<Rightarrow> DailyStats list" where
  "updateContributionMap increment today prevStats =
     (let existingIndex = findIndex (\<lambda>s. date s = today) prevStats
      in if existingIndex \<ge> 0 then
           let k = nat existingIndex;
               currentCompleted = completed (prevStats ! k);
               c = (if increment then currentCompleted + 1 else max (currentCompleted - 1) 0)
           in prevStats[k := (prevStats ! k)\<lparr>completed := c,
                 percentage := (of_int c / of_int (max (total (prevStats ! k)) 1)) * 100\<rparr>]
         else if increment then
           prevStats @ [\<lparr>date = today, completed = 1, total = 1, percentage = 100\<rparr>]
         else prevStats)"

definition statsMap :: "DailyStats list \<Rightarrow> (string \<rightharpoonup> DailyStats)" where
  "statsMap stats = fold (\<lambda>day m. m(date day \<mapsto> day)) stats Map.empty"

definition endDate :: "Date \<Rightarrow> Date" where
  "endDate now = startOfDay now"

definition startDate :: "Date \<Rightarrow> Date" where
  "startDate now = subDays (endDate now) 364"

definition allDates :: "Date \<Rightarrow> Date list" where
  "allDates now = eachDayOfInterval (startDate now) (endDate now)"

text \<open>
  The body of the first \<open>forEach\<close>: the state is the pair of \<open>weeks\<close> and \<open>currentWeek\<close>.
\<close>

definition weekStep :: "Date \<Rightarrow> Date \<Rightarrow> Date list list \<times> Date list \<Rightarrow> Date list list \<times> Date list" where
  "weekStep endD d st =
     (let dayOfWeek = getDay d;
          (weeks1, currentWeek1) =
            (if dayOfWeek = 0 \<and> length (snd st) > 0 then (fst st @ [snd st], []) else st);
          currentWeek2 = currentWeek1 @ [d]
      in if isSameDay d endD then
           let daysToAdd = 7 - int (length currentWeek2);
               currentWeek3 =
                 (if daysToAdd > 0 then currentWeek2 @ map (\<lambda>i. addDays d i) [1..daysToAdd]
                  else currentWeek2)
           in (weeks1 @ [currentWeek3], currentWeek3)
         else (weeks1, currentWeek2))"

definition weeks :: "Date \<Rightarrow> Date list list" where
  "weeks now = fst (fold (weekStep (endDate now)) (allDates now) ([], []))"

text \<open>
  The body of the second \<open>forEach\<close>: the state is the pair of \<open>months\<close> and \<open>currentMonth\<close>.
\<close>

definition monthStep :: "nat \<times> Date \<Rightarrow> (string \<times> int) list \<times> int \<Rightarrow> (string \<times> int) list \<times> int" where
  "monthStep p st =
     (let month = getMonth (snd p)
      in if month \<noteq> snd st
         then (fst st @ [(format_MMM (snd p), int (fst p) div 7)], month)
         else st)"

definition months :: "Date \<Rightarrow> (string \<times> int) list" where
  "months now = fst (fold monthStep (enumerate 0 (allDates now)) ([], - 1))"

definition getColorClass :: "DailyStats option \<Rightarrow> string" where
  "getColorClass day =
     (case day of
        None \<Rightarrow> ''bg-[#ebedf0] dark:bg-[#161b22]''
      | Some s \<Rightarrow>
          if completed s = 0 then ''bg-[#ebedf0] dark:bg-[#161b22]''
          else if completed s \<ge> 10 then ''bg-[#39d353] dark:bg-[#39d353]''
          else if completed s \<ge> 7 then ''bg-[#26a641] dark:bg-[#26a641]''
          else if completed s \<ge> 4 then ''bg-[#006d32] dark:bg-[#006d32]''
          else if completed s \<ge> 1 then ''bg-[#0e4429] dark:bg-[#0e4429]''
          else ''bg-[#ebedf0] dark:bg-[#161b22]'')"

definition formatTooltip :: "DailyStats option \<Rightarrow> Date \<Rightarrow> string" where
  "formatTooltip day d =
     (let formattedDate = format_long d
      in case day of
           None \<Rightarrow> formattedDate @ '': No contributions''
         | Some s \<Rightarrow>
             if completed s = 0 then formattedDate @ '': No contributions''
             else formattedDate @ '': '' @ numberToString (completed s) @ '' contribution''
                    @ (if completed s = 1 then [] else ''s''))"

text \<open>
  One cell of the grid: whether it is a future date, the colour class interpolated into
  its \<open>className\<close>, its \<open>aria-label\<close>, and the tooltip content, which is rendered only
  for a date that is not in the future.
\<close>

record Cell =
  isFutureDate :: bool
  colorClass :: string
  ariaLabel :: string
  tooltipContent :: "string option"

definition renderCell :: "DailyStats list \<Rightarrow> Date \<Rightarrow> Date \<Rightarrow> Cell" where
  "renderCell stats now d =
     (let dateStr = format_ISO d;
          dayStats = statsMap stats dateStr;
          future = (d > endDate now)
      in \<lparr>isFutureDate = future,
          colorClass = (if future then ''bg-transparent'' else getColorClass dayStats),
          ariaLabel = formatTooltip dayStats d,
          tooltipContent = (if \<not> future then Some (formatTooltip dayStats d) else None)\<rparr>)"

definition renderGrid :: "DailyStats list \<Rightarrow> Date \<Rightarrow> Cell list list" where
  "renderGrid stats now = map (\<lambda>week. map (renderCell stats now) week) (weeks now)"

section \<open>Calendar Renderer (unnamed/part_000)\<close>

text \<open>
  The second copy of the component. It has no state of its own and no storage access:
  it renders the \<open>stats\<close> property directly. Its definitions follow its own source text.
\<close>

definition statsMap_part0 :: "DailyStats list \<Rightarrow> (string \<rightharpoonup> DailyStats)" where
  "statsMap_part0 stats = fold (\<lambda>day m. m(date day \<mapsto> day)) stats Map.empty"

definition endDate_part0 :: "Date \<Rightarrow> Date" where
  "endDate_part0 now = startOfDay now"

definition startDate_part0 :: "Date \<Rightarrow> Date" where
  "startDate_part0 now = subDays (endDate_part0 now) 364"

definition allDates_part0 :: "Date \<Rightarrow> Date list" where
  "allDates_part0 now = eachDayOfInterval (startDate_part0 now) (endDate_part0 now)"

definition weekStep_part0 ::
  "Date \<Rightarrow> Date \<Rightarrow> Date list list \<times> Date list \<Rightarrow> Date list list \<times> Date list" where
  "weekStep_part0 endD d st =
     (let dayOfWeek = getDay d;
          (weeks1, currentWeek1) =
            (if dayOfWeek = 0 \<and> length (snd st) > 0 then (fst st @ [snd st], []) else st);
          currentWeek2 = currentWeek1 @ [d]
      in if isSameDay d endD then
           let daysToAdd = 7 - int (length currentWeek2);
               currentWeek3 =
                 (if daysToAdd > 0 then currentWeek2 @ map (\<lambda>i. addDays d i) [1..daysToAdd]
                  else currentWeek2)
           in (weeks1 @ [currentWeek3], currentWeek3)
         else (weeks1, currentWeek2))"

definition weeks_part0 :: "Date \<Rightarrow> Date list list" where
  "weeks_part0 now = fst (fold (weekStep_part0 (endDate_part0 now)) (allDates_part0 now) ([], []))"

definition monthStep_part0 ::
  "nat \<times> Date \<Rightarrow> (string \<times> int) list \<times> int \<Rightarrow> (string \<times> int) list \<times> int" where
  "monthStep_part0 p st =
     (let month = getMonth (snd p)
      in if month \<noteq> snd st
         then (fst st @ [(format_MMM (snd p), int (fst p) div 7)], month)
         else st)"

definition months_part0 :: "Date \<Rightarrow> (string \<times> int) list" where
  "months_part0 now = fst (fold monthStep_part0 (enumerate 0 (allDates_part0 now)) ([], - 1))"

definition getColorClass_part0 :: "DailyStats option \<Rightarrow> string" where
  "getColorClass_part0 day =
     (case day of
        None \<Rightarrow> ''bg-[#ebedf0] dark:bg-[#161b22]''
      | Some s \<Rightarrow>
          if completed s = 0 then ''bg-[#ebedf0] dark:bg-[#161b22]''
          else if completed s \<ge> 10 then ''bg-[#39d353] dark:bg-[#39d353]''
          else if completed s \<ge> 7 then ''bg-[#26a641] dark:bg-[#26a641]''
          else if completed s \<ge> 4 then ''bg-[#006d32] dark:bg-[#006d32]''
          else if completed s \<ge> 1 then ''bg-[#0e4429] dark:bg-[#0e4429]''
          else ''bg-[#ebedf0] dark:bg-[#161b22]'')"

definition formatTooltip_part0 :: "DailyStats option \<Rightarrow> Date \<Rightarrow> string" where
  "formatTooltip_part0 day d =
     (let formattedDate = format_long d
      in case day of
           None \<Rightarrow> formattedDate @ '': No contributions''
         | Some s \<Rightarrow>
             if completed s = 0 then formattedDate @ '': No contributions''
             else formattedDate @ '': '' @ numberToString (completed s) @ '' contribution''
                    @ (if completed s = 1 then [] else ''s''))"

definition renderCell_part0 :: "DailyStats list \<Rightarrow> Date \<Rightarrow> Date \<Rightarrow> Cell" where
  "renderCell_part0 stats now d =
     (let dateStr = format_ISO d;
          dayStats = statsMap_part0 stats dateStr;
          future = (d > endDate_part0 now)
      in \<lparr>isFutureDate = future,
          colorClass = (if future then ''bg-transparent'' else getColorClass_part0 dayStats),
          ariaLabel = formatTooltip_part0 dayStats d,
          tooltipContent = (if \<not> future then Some (formatTooltip_part0 dayStats d) else None)\<rparr>)"

definition renderGrid_part0 :: "DailyStats list \<Rightarrow> Date \<Rightarrow> Cell list list" where
  "renderGrid_part0 stats now =
     map (\<lambda>week. map (renderCell_part0 stats now) week) (weeks_part0 now)"

section \<open>Task Store: properties\<close>

lemma dropWhile_all_iff: "(\<forall>x \<in> set (dropWhile P s). P x) \<longleftrightarrow> (\<forall>x \<in> set s. P x)"
  by (induction s) auto

lemma trim_empty_iff: "trim s = [] \<longleftrightarrow> (\<forall>c \<in> set s. isWhiteSpace c)"
  by (simp add: trim_def dropWhile_all_iff)

text \<open>
  C7. When the input text contains a code unit that is not white space, \<open>addTodo\<close> makes
  the task list one longer, keeps the old tasks, and the new last task is not completed,
  dated with the local calendar day of today, and carries the text. When the text is
  empty or all white space, \<open>addTodo\<close> returns the state unchanged. \<open>addTodo\<close> is a total
  function: no input raises.
\<close>

theorem addTodo_spec:
  "((\<exists>c \<in> set (newTodo st). \<not> isWhiteSpace c) \<longrightarrow>
      length (todos (addTodo uuid (today_TodoApp now) st)) = length (todos st) + 1
      \<and> butlast (todos (addTodo uuid (today_TodoApp now) st)) = todos st
      \<and> \<not> todo_completed (last (todos (addTodo uuid (today_TodoApp now) st)))
      \<and> todo_date (last (todos (addTodo uuid (today_TodoApp now) st))) = format_ISO now
      \<and> todo_text (last (todos (addTodo uuid (today_TodoApp now) st))) = newTodo st)
   \<and> ((\<forall>c \<in> set (newTodo st). isWhiteSpace c) \<longrightarrow> addTodo uuid (today_TodoApp now) st = st)"
  using trim_empty_iff [of "newTodo st"]
  by (auto simp: addTodo_def Let_def today_TodoApp_def startOfDay_def)

theorem addTodo_spec_witness:
  "(\<exists>c \<in> set [0x20, 0x61 :: 16 word]. \<not> isWhiteSpace c)
   \<and> length (todos (addTodo ''u1'' (today_TodoApp 20759) \<lparr>todos = [], newTodo = [0x20, 0x61]\<rparr>)) = 1
   \<and> todo_date (last (todos (addTodo ''u1'' (today_TodoApp 20759) \<lparr>todos = [], newTodo = [0x20, 0x61]\<rparr>)))
       = format_ISO 20759
   \<and> isWhiteSpace 0x20 \<and> isWhiteSpace 0x09
   \<and> addTodo ''u1'' (today_TodoApp 20759) \<lparr>todos = [], newTodo = [0x20, 0x09]\<rparr>
       = \<lparr>todos = [], newTodo = [0x20, 0x09]\<rparr>"
  using addTodo_spec [of "\<lparr>todos = [], newTodo = [0x20, 0x61]\<rparr>" "''u1''" 20759]
    addTodo_spec [of "\<lparr>todos = [], newTodo = [0x20, 0x09]\<rparr>" "''u1''" 20759]
  by (simp add: isWhiteSpace_def)

text \<open>
  C8. Toggling the same id twice gives back the task list as it was, so every task has
  its original completed value; toggling an id that no task has leaves the list unchanged.
\<close>

theorem toggleTodo_twice:
  "toggleTodo i (toggleTodo i st) = st
   \<and> (i \<notin> set (map todo_id (todos st)) \<longrightarrow> toggleTodo i st = st)"
proof -
  have "map (\<lambda>todo. if todo_id todo = i then todo\<lparr>todo_completed := \<not> todo_completed todo\<rparr> else todo)
          (map (\<lambda>todo. if todo_id todo = i then todo\<lparr>todo_completed := \<not> todo_completed todo\<rparr> else todo) ts)
        = ts" for ts :: "Todo list"
    by (induction ts) auto
  moreover have "i \<notin> set (map todo_id ts) \<Longrightarrow>
      map (\<lambda>todo. if todo_id todo = i then todo\<lparr>todo_completed := \<not> todo_completed todo\<rparr> else todo) ts = ts"
    for ts :: "Todo list"
    by (induction ts) auto
  ultimately show ?thesis by (simp add: toggleTodo_def)
qed

theorem toggleTodo_twice_witness:
  "''b'' \<notin> set (map todo_id [\<lparr>todo_id = ''a'', todo_text = [0x61], todo_completed = False, todo_date = ''2026-11-02''\<rparr>])
   \<and> toggleTodo ''b'' \<lparr>todos = [\<lparr>todo_id = ''a'', todo_text = [0x61], todo_completed = False, todo_date = ''2026-11-02''\<rparr>], newTodo = []\<rparr>
     = \<lparr>todos = [\<lparr>todo_id = ''a'', todo_text = [0x61], todo_completed = False, todo_date = ''2026-11-02''\<rparr>], newTodo = []\<rparr>"
  using toggleTodo_twice [of "''b''" "\<lparr>todos = [\<lparr>todo_id = ''a'', todo_text = [0x61], todo_completed = False, todo_date = ''2026-11-02''\<rparr>], newTodo = []\<rparr>"]
  by simp

section \<open>Stats Deriver: properties\<close>

lemma indexMap_Nil: "indexMap [] = Map.empty"
  by (simp add: indexMap_def)

lemma indexMap_snoc: "indexMap (xs @ [x]) = (indexMap xs)(date x \<mapsto> length xs)"
  by (simp add: indexMap_def enumerate_append_eq)

lemma indexMap_SomeD: "indexMap xs d = Some i \<Longrightarrow> i < length xs \<and> date (xs ! i) = d"
proof (induction xs rule: rev_induct)
  case Nil
  then show ?case by (simp add: indexMap_Nil)
next
  case (snoc x xs)
  then show ?case
    by (auto simp: indexMap_snoc nth_append split: if_splits)
qed

lemma indexMap_distinct:
  "distinct (map date xs) \<Longrightarrow> i < length xs \<Longrightarrow> indexMap xs (date (xs ! i)) = Some i"
proof (induction xs rule: rev_induct)
  case Nil
  then show ?case by simp
next
  case (snoc x xs)
  show ?case
  proof (cases "i < length xs")
    case True
    then have "xs ! i \<in> set xs" by simp
    then have "date (xs ! i) \<in> date ` set xs" by (rule imageI)
    with snoc.prems have "date (xs ! i) \<noteq> date x" by auto
    with True snoc show ?thesis by (simp add: indexMap_snoc nth_append)
  next
    case False
    with snoc.prems have "i = length xs" by simp
    then show ?thesis by (simp add: indexMap_snoc)
  qed
qed

lemma length_countTodo: "length (countTodo M t ns) = length ns"
  by (simp add: countTodo_def Let_def split: option.splits)

lemma length_fold_countTodo: "length (fold (countTodo M) ts ns) = length ns"
  by (induction ts arbitrary: ns) (simp_all add: length_countTodo)

lemma map_update_same: "(map f ns)[i := f (ns ! i)] = map f ns"
  by (cases "i < length ns") (simp_all add: list_update_same_conv list_update_beyond)

lemma date_countTodo: "map date (countTodo M t ns) = map date ns"
  by (simp add: countTodo_def Let_def map_update map_update_same split: option.splits)

lemma date_fold_countTodo: "map date (fold (countTodo M) ts ns) = map date ns"
  by (induction ts arbitrary: ns) (simp_all add: date_countTodo)

lemma completed_countTodo:
  "i < length ns \<Longrightarrow>
   completed (countTodo M t ns ! i) =
   completed (ns ! i) + (if todo_completed t \<and> M (todo_date t) = Some i then 1 else 0)"
  by (auto simp: countTodo_def Let_def nth_list_update split: option.splits)

lemma completed_fold_countTodo:
  "i < length ns \<Longrightarrow>
   completed (fold (countTodo M) ts ns ! i) =
   completed (ns ! i)
     + int (length (filter (\<lambda>t. todo_completed t \<and> M (todo_date t) = Some i) ts))"
proof (induction ts arbitrary: ns)
  case Nil
  then show ?case by simp
next
  case (Cons t ts)
  then show ?case
    by (simp add: length_countTodo completed_countTodo)
qed

lemma level_countTodo:
  "\<forall>s \<in> set ns. percentage s = level (completed s) \<Longrightarrow>
   \<forall>s \<in> set (countTodo M t ns). percentage s = level (completed s)"
  by (auto simp: countTodo_def Let_def split: option.splits
      dest!: set_update_subset_insert [THEN subsetD])

lemma level_fold_countTodo:
  "\<forall>s \<in> set ns. percentage s = level (completed s) \<Longrightarrow>
   \<forall>s \<in> set (fold (countTodo M) ts ns). percentage s = level (completed s)"
proof (induction ts arbitrary: ns)
  case Nil
  then show ?case by simp
next
  case (Cons t ts)
  from Cons.prems have "\<forall>s \<in> set (countTodo M t ns). percentage s = level (completed s)"
    by (rule level_countTodo)
  then show ?case using Cons.IH by simp
qed

lemma date_reanchor:
  "map date (reanchor today stats) =
     (if today \<in> set (map date stats) then map date stats else today # butlast (map date stats))"
  by (auto simp: reanchor_def emptyStat_def list_ex_iff map_butlast)

lemma date_reanchor_distinct:
  assumes "distinct (map date stats)"
  shows "distinct (map date (reanchor today stats))"
proof (cases "today \<in> set (map date stats)")
  case True
  with assms show ?thesis by (simp only: date_reanchor if_True)
next
  case False
  then have "today \<notin> set (butlast (map date stats))"
    by (blast dest: in_set_butlastD)
  with assms False show ?thesis
    by (simp only: date_reanchor if_False distinct.simps distinct_butlast simp_thms)
qed

lemma date_resetCounts: "map date (resetCounts stats) = map date stats"
  by (simp add: resetCounts_def)

lemma resetCounts_zero:
  "s \<in> set (resetCounts stats) \<Longrightarrow> completed s = 0 \<and> total s = 0 \<and> percentage s = 0"
  by (auto simp: resetCounts_def)

lemma updateStats_fold:
  "updateStats today ts stats =
     fold (countTodo (indexMap (resetCounts (reanchor today stats)))) ts
       (resetCounts (reanchor today stats))"
  by (simp add: updateStats_def Let_def)

lemma date_updateStats: "map date (updateStats today ts stats) = map date (reanchor today stats)"
  by (simp add: updateStats_fold date_fold_countTodo date_resetCounts)

text \<open>
  The dates of the stat list stay pairwise distinct under recomputation, so the
  uniqueness of the key \<open>date\<close> is an invariant of the Stats Deriver.
\<close>

lemma updateStats_distinct:
  "distinct (map date stats) \<Longrightarrow> distinct (map date (updateStats today ts stats))"
  by (simp add: date_updateStats date_reanchor_distinct)

lemma updateStats_nonneg_level:
  assumes "s \<in> set (updateStats today ts stats)"
  shows "0 \<le> completed s \<and> percentage s = level (completed s)"
proof -
  define ns where "ns = resetCounts (reanchor today stats)"
  have res: "updateStats today ts stats = fold (countTodo (indexMap ns)) ts ns"
    by (simp add: updateStats_fold ns_def)
  have "\<forall>s \<in> set ns. percentage s = level (completed s)"
    using resetCounts_zero by (auto simp: ns_def level_def)
  then have "\<forall>s \<in> set (updateStats today ts stats). percentage s = level (completed s)"
    unfolding res by (rule level_fold_countTodo)
  with assms have a: "percentage s = level (completed s)" by blast
  from assms obtain i where i: "i < length ns" and s: "s = fold (countTodo (indexMap ns)) ts ns ! i"
    by (auto simp: res in_set_conv_nth length_fold_countTodo)
  have "completed (ns ! i) = 0"
    using i resetCounts_zero [of "ns ! i" "reanchor today stats"] by (simp add: ns_def)
  then have "0 \<le> completed s"
    using completed_fold_countTodo [OF i, of "indexMap ns" ts] s by simp
  with a show ?thesis by simp
qed

lemma level_mono: "0 \<le> a \<Longrightarrow> a \<le> b \<Longrightarrow> level a \<le> level b"
  by (auto simp: level_def)

lemma level_range: "level c \<in> {0, 25, 50, 75, 100}"
  by (simp add: level_def)

text \<open>
  C1. The date is the unique key of a \<open>DailyStats\<close> list (data model of the
  specification, and \<open>updateStats_distinct\<close>). For such a stat list and every task list,
  each entry of the recomputed list has \<open>completed\<close> equal to the number of tasks that
  carry the entry's date and are completed.
\<close>

theorem updateStats_completed:
  assumes "distinct (map date stats)"
    and "s \<in> set (updateStats today ts stats)"
  shows "completed s = int (length (filter (\<lambda>t. todo_date t = date s \<and> todo_completed t) ts))"
proof -
  define ns where "ns = resetCounts (reanchor today stats)"
  define M where "M = indexMap ns"
  have res: "updateStats today ts stats = fold (countTodo M) ts ns"
    by (simp add: updateStats_fold ns_def M_def)
  have dist: "distinct (map date ns)"
    using assms(1) by (simp add: ns_def date_resetCounts date_reanchor_distinct)
  from assms(2) obtain i where i: "i < length ns" and s: "s = fold (countTodo M) ts ns ! i"
    by (auto simp: res in_set_conv_nth length_fold_countTodo)
  have ds: "date s = date (ns ! i)"
  proof -
    have "date s = map date (fold (countTodo M) ts ns) ! i"
      using i s by (simp add: length_fold_countTodo)
    then show ?thesis using i by (simp add: date_fold_countTodo)
  qed
  have key: "M d = Some i \<longleftrightarrow> d = date (ns ! i)" for d
    using indexMap_SomeD [of ns d i] indexMap_distinct [OF dist i] by (auto simp: M_def)
  have zero: "completed (ns ! i) = 0"
    using i resetCounts_zero [of "ns ! i" "reanchor today stats"] by (simp add: ns_def)
  have "completed s = int (length (filter (\<lambda>t. todo_completed t \<and> M (todo_date t) = Some i) ts))"
    using completed_fold_countTodo [OF i, of M ts] zero s by simp
  also have "(\<lambda>t. todo_completed t \<and> M (todo_date t) = Some i)
      = (\<lambda>t. todo_date t = date s \<and> todo_completed t)"
    by (auto simp: key ds)
  finally show ?thesis .
qed

theorem updateStats_completed_witness:
  "distinct (map date [emptyStat ''2026-11-02'', emptyStat ''2026-11-01''])
   \<and> \<lparr>date = ''2026-11-02'', completed = 2, total = 0, percentage = 50\<rparr>
       \<in> set (updateStats ''2026-11-02''
            [\<lparr>todo_id = ''a'', todo_text = [0x61], todo_completed = True, todo_date = ''2026-11-02''\<rparr>,
             \<lparr>todo_id = ''b'', todo_text = [0x62], todo_completed = False, todo_date = ''2026-11-02''\<rparr>,
             \<lparr>todo_id = ''c'', todo_text = [0x63], todo_completed = True, todo_date = ''2026-11-02''\<rparr>,
             \<lparr>todo_id = ''d'', todo_text = [0x64], todo_completed = True, todo_date = ''2026-11-01''\<rparr>]
            [emptyStat ''2026-11-02'', emptyStat ''2026-11-01''])
   \<and> (2::int) = int (length (filter (\<lambda>t. todo_date t = ''2026-11-02'' \<and> todo_completed t)
            [\<lparr>todo_id = ''a'', todo_text = [0x61], todo_completed = True, todo_date = ''2026-11-02''\<rparr>,
             \<lparr>todo_id = ''b'', todo_text = [0x62], todo_completed = False, todo_date = ''2026-11-02''\<rparr>,
             \<lparr>todo_id = ''c'', todo_text = [0x63], todo_completed = True, todo_date = ''2026-11-02''\<rparr>,
             \<lparr>todo_id = ''d'', todo_text = [0x64], todo_completed = True, todo_date = ''2026-11-01''\<rparr>]))"
proof -
  let ?stats = "[emptyStat ''2026-11-02'', emptyStat ''2026-11-01'']"
  let ?ts = "[\<lparr>todo_id = ''a'', todo_text = [0x61], todo_completed = True, todo_date = ''2026-11-02''\<rparr>,
             \<lparr>todo_id = ''b'', todo_text = [0x62], todo_completed = False, todo_date = ''2026-11-02''\<rparr>,
             \<lparr>todo_id = ''c'', todo_text = [0x63], todo_completed = True, todo_date = ''2026-11-02''\<rparr>,
             \<lparr>todo_id = ''d'', todo_text = [0x64], todo_completed = True, todo_date = ''2026-11-01''\<rparr>]"
  let ?s = "\<lparr>date = ''2026-11-02'', completed = 2, total = 0, percentage = 50\<rparr>"
  have h1: "distinct (map date ?stats)"
    by (simp add: emptyStat_def)
  have h2: "?s \<in> set (updateStats ''2026-11-02'' ?ts ?stats)"
    by code_simp
  from updateStats_completed [OF h1 h2] h1 h2 show ?thesis by simp
qed

text \<open>
  C2. Every entry of the recomputed list has a counter that is not negative and the
  percentage that the level chain gives for that counter. The chain maps 0 to 0, 1 to 25,
  2 and 3 to 50, 4 and 5 to 75, and 6 or more to 100, and it is monotonic on counters.
\<close>

theorem level_exact:
  "(\<forall>s \<in> set (updateStats today ts stats). 0 \<le> completed s \<and> percentage s = level (completed s))
   \<and> level 0 = 0 \<and> level 1 = 25
   \<and> (\<forall>c. 2 \<le> c \<and> c \<le> 3 \<longrightarrow> level c = 50)
   \<and> (\<forall>c. 4 \<le> c \<and> c \<le> 5 \<longrightarrow> level c = 75)
   \<and> (\<forall>c. 6 \<le> c \<longrightarrow> level c = 100)
   \<and> (\<forall>a b. 0 \<le> a \<and> a \<le> b \<longrightarrow> level a \<le> level b)"
  using updateStats_nonneg_level [of _ today ts stats] level_mono
  by (auto simp: level_def)

theorem level_exact_witness:
  "\<lparr>date = ''2026-11-02'', completed = 1, total = 0, percentage = 25\<rparr>
     \<in> set (updateStats ''2026-11-02''
          [\<lparr>todo_id = ''a'', todo_text = [0x61], todo_completed = True, todo_date = ''2026-11-02''\<rparr>]
          [emptyStat ''2026-11-02''])
   \<and> level 1 = 25 \<and> (2::int) \<le> 3 \<and> level 3 = 50 \<and> (4::int) \<le> 5 \<and> level 4 = 75
   \<and> (6::int) \<le> 6 \<and> level 6 = 100 \<and> (0::int) \<le> 3 \<and> (3::int) \<le> 4 \<and> level 3 \<le> level 4"
proof -
  let ?ts = "[\<lparr>todo_id = ''a'', todo_text = [0x61], todo_completed = True, todo_date = ''2026-11-02''\<rparr>]"
  have h: "\<lparr>date = ''2026-11-02'', completed = 1, total = 0, percentage = 25\<rparr>
      \<in> set (updateStats ''2026-11-02'' ?ts [emptyStat ''2026-11-02''])"
    by code_simp
  from level_exact [of "''2026-11-02''" ?ts "[emptyStat ''2026-11-02'']"] h show ?thesis
    by simp
qed

section \<open>Stats Deriver: re-anchoring\<close>

lemma sorted_desc_last_Min:
  fixes xs :: "'a::linorder list"
  assumes "sorted_wrt (>) xs" "xs \<noteq> []"
  shows "Min (set xs) = last xs \<and> set (butlast xs) = set xs - {last xs}"
  using assms
proof (induction xs)
  case Nil
  then show ?case by simp
next
  case (Cons a xs)
  show ?case
  proof (cases "xs = []")
    case True
    then show ?thesis by simp
  next
    case False
    with Cons have ih: "Min (set xs) = last xs" "set (butlast xs) = set xs - {last xs}" by simp_all
    from False have mem: "last xs \<in> set xs" by simp
    with Cons.prems have lt: "last xs < a" by auto
    have "Min (set (a # xs)) = min a (Min (set xs))"
      using False by (simp add: Min_insert)
    moreover have "min a (last xs) = last xs"
      using lt by (simp add: min_absorb2)
    ultimately have m: "Min (set (a # xs)) = last (a # xs)"
      using False ih by simp
    have "set (butlast (a # xs)) = insert a (set xs - {last xs})"
      using False ih by simp
    also have "\<dots> = set (a # xs) - {last (a # xs)}"
      using False lt by auto
    finally show ?thesis using m by simp
  qed
qed

lemma map_upto_shift_aux:
  "0 \<le> n \<Longrightarrow> map (\<lambda>i. g (a + 1 - i)) [1..n + 1] = map (\<lambda>i. g (a - i)) [0..n]"
proof (induction n rule: int_ge_induct)
  case base
  show ?case by simp
next
  case (step n)
  have "[1..n + 1 + 1] = [1..n + 1] @ [n + 1 + 1]"
    using step.hyps upto_rec2 [of 1 "n + 1 + 1"] by (simp add: add.commute)
  moreover have "[0..n + 1] = [0..n] @ [n + 1]"
    using step.hyps upto_rec2 [of 0 "n + 1"] by simp
  moreover have "a + 1 - (n + 1 + 1) = a - (n + 1)" by simp
  ultimately show ?case using step.IH by (simp del: diff_add_eq_diff_diff_swap add: algebra_simps)
qed

lemma map_upto_shift:
  assumes "0 \<le> n"
  shows "map (\<lambda>i. g (a + 1 - i)) [0..n] = g (a + 1) # butlast (map (\<lambda>i. g (a - i)) [0..n])"
proof -
  have "[0..n] = [0..n - 1] @ [n]"
    using assms by (rule upto_rec2)
  then have b: "butlast (map (\<lambda>i. g (a - i)) [0..n]) = map (\<lambda>i. g (a - i)) [0..n - 1]"
    by simp
  have c: "[0..n] = 0 # [1..n]"
    using assms upto_rec1 [of 0 n] by simp
  have "map (\<lambda>i. g (a + 1 - i)) [1..n] = map (\<lambda>i. g (a - i)) [0..n - 1]"
  proof (cases "n = 0")
    case True
    then show ?thesis by simp
  next
    case False
    with assms have "0 \<le> n - 1" by simp
    from map_upto_shift_aux [OF this, of g a] show ?thesis by simp
  qed
  with b show ?thesis by (simp add: c)
qed

lemma initialStats_dates:
  "map date (initialStats m) = map (\<lambda>i. format_ISO (m - i)) [0..364]"
  by (simp add: initialStats_def emptyStat_def subDays_def comp_def)

lemma initialStats_shift:
  "map date (initialStats (now + 1)) = format_ISO (now + 1) # butlast (map date (initialStats now))"
  unfolding initialStats_dates by (rule map_upto_shift) simp

lemma date_updateStats_cases:
  "map date (updateStats today ts stats) =
     (if today \<in> set (map date stats) then map date stats else today # butlast (map date stats))"
  by (simp only: date_updateStats date_reanchor)

lemma length_updateStats:
  assumes "stats \<noteq> []"
  shows "length (updateStats today ts stats) = length stats"
proof -
  have "length (map date (updateStats today ts stats)) = length stats"
    unfolding date_updateStats_cases using assms
    by (cases "today \<in> set (map date stats)") simp_all
  then show ?thesis by simp
qed

lemma updateStats_removes_Min:
  assumes "today \<notin> set (map date stats)" "stats \<noteq> []" "sorted_wrt (>) (map date stats)"
  shows "set (map date (updateStats today ts stats))
        = insert today (set (map date stats) - {Min (set (map date stats))})"
proof -
  from assms(2) have ne: "map date stats \<noteq> []" by simp
  from sorted_desc_last_Min [OF assms(3) ne]
  have "set (butlast (map date stats)) = set (map date stats) - {Min (set (map date stats))}"
    by simp
  with assms(1) show ?thesis by (simp only: date_updateStats_cases if_False list.simps(15))
qed

text \<open>
  C6, as the code has it. When today's date is missing from the stat list, recomputation
  puts an entry for today in front and drops the last entry of the list; when it is
  present, the dates stay as they are. The length of a non-empty list is preserved. The
  dropped entry is the one with the least date whenever the list is ordered newest first,
  which is the order of the seeded list: the seed of the next day is the seed of this
  day with the new date in front and the last date dropped.
\<close>

theorem reanchor_spec:
  "(today \<notin> set (map date stats) \<longrightarrow>
      map date (updateStats today ts stats) = today # butlast (map date stats))
   \<and> (today \<in> set (map date stats) \<longrightarrow>
      map date (updateStats today ts stats) = map date stats)
   \<and> (stats \<noteq> [] \<longrightarrow> length (updateStats today ts stats) = length stats)
   \<and> (today \<notin> set (map date stats) \<and> stats \<noteq> [] \<and> sorted_wrt (>) (map date stats) \<longrightarrow>
      set (map date (updateStats today ts stats))
        = insert today (set (map date stats) - {Min (set (map date stats))}))
   \<and> map date (initialStats (now + 1))
        = format_ISO (now + 1) # butlast (map date (initialStats now))"
proof (intro conjI impI)
  assume "today \<notin> set (map date stats)"
  then show "map date (updateStats today ts stats) = today # butlast (map date stats)"
    by (simp only: date_updateStats_cases if_False)
next
  assume "today \<in> set (map date stats)"
  then show "map date (updateStats today ts stats) = map date stats"
    by (simp only: date_updateStats_cases if_True)
next
  assume "stats \<noteq> []"
  then show "length (updateStats today ts stats) = length stats"
    by (rule length_updateStats)
next
  assume "today \<notin> set (map date stats) \<and> stats \<noteq> [] \<and> sorted_wrt (>) (map date stats)"
  then show "set (map date (updateStats today ts stats))
        = insert today (set (map date stats) - {Min (set (map date stats))})"
    using updateStats_removes_Min by blast
next
  show "map date (initialStats (now + 1))
        = format_ISO (now + 1) # butlast (map date (initialStats now))"
    by (rule initialStats_shift)
qed

theorem reanchor_spec_witness:
  "''2026-11-03'' \<notin> set (map date [emptyStat ''2026-11-02'', emptyStat ''2026-11-01''])
   \<and> map date (updateStats ''2026-11-03'' [] [emptyStat ''2026-11-02'', emptyStat ''2026-11-01''])
       = [''2026-11-03'', ''2026-11-02'']
   \<and> ''2026-11-02'' \<in> set (map date [emptyStat ''2026-11-02'', emptyStat ''2026-11-01''])
   \<and> map date (updateStats ''2026-11-02'' [] [emptyStat ''2026-11-02'', emptyStat ''2026-11-01''])
       = [''2026-11-02'', ''2026-11-01'']
   \<and> [emptyStat ''2026-11-02'', emptyStat ''2026-11-01''] \<noteq> []
   \<and> length (updateStats ''2026-11-03'' [] [emptyStat ''2026-11-02'', emptyStat ''2026-11-01'']) = 2
   \<and> sorted_wrt (>) (map date [emptyStat ''2026-11-02'', emptyStat ''2026-11-01''])
   \<and> set (map date (updateStats ''2026-11-03'' [] [emptyStat ''2026-11-02'', emptyStat ''2026-11-01'']))
       = {''2026-11-03'', ''2026-11-02''}"
  using reanchor_spec [of "''2026-11-03''" "[emptyStat ''2026-11-02'', emptyStat ''2026-11-01'']" "[]"]
    reanchor_spec [of "''2026-11-02''" "[emptyStat ''2026-11-02'', emptyStat ''2026-11-01'']" "[]"]
  by (simp add: emptyStat_def)

text \<open>
  C6 as stated fails on a list that is not ordered newest first: with the entries of
  2026-01-01 and 2026-01-02 in this order and today 2026-01-03, the entry dropped is the
  one of 2026-01-02, and the oldest entry stays.
\<close>

theorem reanchor_oldest_counterexample:
  "''2026-01-03'' \<notin> set (map date [emptyStat ''2026-01-01'', emptyStat ''2026-01-02''])
   \<and> map date (updateStats ''2026-01-03'' [] [emptyStat ''2026-01-01'', emptyStat ''2026-01-02''])
       = [''2026-01-03'', ''2026-01-01'']
   \<and> (''2026-01-01'' :: string) < ''2026-01-02''"
  by (simp add: date_updateStats_cases emptyStat_def)

section \<open>The percentage field\<close>

lemma findIndexFrom_none: "\<forall>x \<in> set xs. \<not> P x \<Longrightarrow> findIndexFrom i P xs = - 1"
  by (induction xs arbitrary: i) auto

lemma findIndexFrom_first:
  "k < length xs \<Longrightarrow> P (xs ! k) \<Longrightarrow> \<forall>j < k. \<not> P (xs ! j) \<Longrightarrow> findIndexFrom i P xs = i + int k"
proof (induction xs arbitrary: i k)
  case Nil
  then show ?case by simp
next
  case (Cons x xs)
  show ?case
  proof (cases k)
    case 0
    with Cons.prems show ?thesis by simp
  next
    case (Suc k')
    with Cons.prems have "\<not> P x" by auto
    moreover have "findIndexFrom (i + 1) P xs = i + 1 + int k'"
    proof (rule Cons.IH)
      show "k' < length xs" using Cons.prems Suc by simp
      show "P (xs ! k')" using Cons.prems Suc by simp
      show "\<forall>j<k'. \<not> P (xs ! j)" using Cons.prems(3) Suc by auto
    qed
    ultimately show ?thesis using Suc by simp
  qed
qed

lemma updateContributionMap_absent:
  assumes "today \<notin> set (map date prevStats)"
  shows "updateContributionMap increment today prevStats =
     (if increment then prevStats @ [\<lparr>date = today, completed = 1, total = 1, percentage = 100\<rparr>]
      else prevStats)"
proof -
  from assms have "\<forall>x \<in> set prevStats. \<not> date x = today" by auto
  then have "findIndexFrom 0 (\<lambda>s. date s = today) prevStats = - 1"
    by (rule findIndexFrom_none)
  then show ?thesis
    by (simp add: updateContributionMap_def findIndex_def Let_def)
qed

lemma updateContributionMap_present:
  assumes "k < length prevStats" "date (prevStats ! k) = today" "\<forall>j < k. date (prevStats ! j) \<noteq> today"
  shows "updateContributionMap increment today prevStats =
     prevStats[k := (prevStats ! k)\<lparr>
        completed := (if increment then completed (prevStats ! k) + 1
                      else max (completed (prevStats ! k) - 1) 0),
        percentage := of_int (if increment then completed (prevStats ! k) + 1
                              else max (completed (prevStats ! k) - 1) 0)
                      / of_int (max (total (prevStats ! k)) 1) * 100\<rparr>]"
  using findIndexFrom_first [of k prevStats "\<lambda>s. date s = today" 0] assms
  by (simp add: updateContributionMap_def findIndex_def Let_def)

text \<open>The renderer's update keeps the dates of the stat list pairwise distinct as well.\<close>

lemma updateContributionMap_distinct:
  assumes "distinct (map date prevStats)"
  shows "distinct (map date (updateContributionMap increment today prevStats))"
proof (cases "today \<in> set (map date prevStats)")
  case False
  with assms show ?thesis by (simp add: updateContributionMap_absent)
next
  case True
  then obtain k where k: "k < length prevStats" "date (prevStats ! k) = today"
    by (auto simp: in_set_conv_nth)
  define k0 where "k0 = (LEAST j. j < length prevStats \<and> date (prevStats ! j) = today)"
  have "k0 < length prevStats \<and> date (prevStats ! k0) = today"
    unfolding k0_def using k by (intro LeastI [of "\<lambda>j. j < length prevStats \<and> date (prevStats ! j) = today" k]) simp
  moreover have "\<forall>j < k0. date (prevStats ! j) \<noteq> today"
  proof (intro allI impI)
    fix j assume "j < k0"
    then have "\<not> (j < length prevStats \<and> date (prevStats ! j) = today)"
      unfolding k0_def by (rule not_less_Least)
    moreover from \<open>j < k0\<close> \<open>k0 < length prevStats \<and> date (prevStats ! k0) = today\<close>
    have "j < length prevStats" by simp
    ultimately show "date (prevStats ! j) \<noteq> today" by simp
  qed
  ultimately have "map date (updateContributionMap increment today prevStats)
      = (map date prevStats)[k0 := date (prevStats ! k0)]"
    using updateContributionMap_present [of k0 prevStats today increment]
    by (simp add: map_update)
  with assms show ?thesis by (simp only: map_update_same)
qed

lemma updateStats_percentage:
  "s \<in> set (updateStats today ts stats) \<Longrightarrow> percentage s \<in> {0, 25, 50, 75, 100}"
  using updateStats_nonneg_level [of s today ts stats] level_range [of "completed s"] by simp

lemma initialStats_percentage: "s \<in> set (initialStats now) \<Longrightarrow> percentage s = 0"
  by (auto simp: initialStats_def emptyStat_def)

lemma mountContributionMap_cases:
  "mountContributionMap parseStats initStats storage = initStats
   \<or> (\<exists>v. parseStats v = Some (mountContributionMap parseStats initStats storage))"
  by (auto simp: mountContributionMap_def Let_def split: option.splits)

lemma loadTodoApp_cases:
  "loadTodoApp parseTodos parseStats now storage = Inr (ts, ss) \<Longrightarrow>
   ss = initialStats now \<or> (\<exists>v. parseStats v = Some ss)"
  by (auto simp: loadTodoApp_def Let_def split: option.splits if_splits sum.splits)

lemma initialStats_today: "emptyStat (format_ISO now) \<in> set (initialStats now)"
proof -
  have "(0::int) \<in> set [0..364]" by simp
  then have "emptyStat (format_ISO (subDays now 0))
      \<in> (\<lambda>i. emptyStat (format_ISO (subDays now i))) ` set [0..364]"
    by (rule imageI)
  then show ?thesis by (simp add: initialStats_def subDays_def)
qed

text \<open>
  C5, as the code has it. Recomputation leaves every percentage in the set of the five
  levels, and every seeded entry has percentage 0. Loading returns the stored list as
  the parser gives it (or the seed, or the initial property), so it keeps the levels of
  well-formed data. \<open>updateContributionMap\<close> does not use the levels: for the first entry
  of today it stores the quotient of the new counter by \<open>max total 1\<close>, times 100, and it
  appends an entry with percentage 100 when today has no entry and the call increments.
\<close>

theorem percentage_operations:
  "(\<forall>s \<in> set (updateStats today ts stats). percentage s \<in> {0, 25, 50, 75, 100})
   \<and> (\<forall>s \<in> set (initialStats now). percentage s = 0)
   \<and> ((\<forall>v ss. parseStats v = Some ss \<longrightarrow> (\<forall>s \<in> set ss. percentage s \<in> {0, 25, 50, 75, 100}))
        \<and> loadTodoApp parseTodos parseStats now storage = Inr (loaded, ss')
        \<longrightarrow> (\<forall>s \<in> set ss'. percentage s \<in> {0, 25, 50, 75, 100}))
   \<and> ((\<forall>v ss. parseStats v = Some ss \<longrightarrow> (\<forall>s \<in> set ss. percentage s \<in> {0, 25, 50, 75, 100}))
        \<and> (\<forall>s \<in> set initStats. percentage s \<in> {0, 25, 50, 75, 100})
        \<longrightarrow> (\<forall>s \<in> set (mountContributionMap parseStats initStats storage).
               percentage s \<in> {0, 25, 50, 75, 100}))
   \<and> (today \<notin> set (map date prevStats) \<longrightarrow>
        updateContributionMap True today prevStats
          = prevStats @ [\<lparr>date = today, completed = 1, total = 1, percentage = 100\<rparr>]
        \<and> updateContributionMap False today prevStats = prevStats)
   \<and> (k < length prevStats \<and> date (prevStats ! k) = today \<and> (\<forall>j < k. date (prevStats ! j) \<noteq> today) \<longrightarrow>
        updateContributionMap increment today prevStats =
          prevStats[k := (prevStats ! k)\<lparr>
            completed := (if increment then completed (prevStats ! k) + 1
                          else max (completed (prevStats ! k) - 1) 0),
            percentage := of_int (if increment then completed (prevStats ! k) + 1
                                  else max (completed (prevStats ! k) - 1) 0)
                          / of_int (max (total (prevStats ! k)) 1) * 100\<rparr>])"
proof (intro conjI impI ballI)
  fix s assume "s \<in> set (updateStats today ts stats)"
  then show "percentage s \<in> {0, 25, 50, 75, 100}" by (rule updateStats_percentage)
next
  fix s assume "s \<in> set (initialStats now)"
  then show "percentage s = 0" by (rule initialStats_percentage)
next
  fix s
  assume h: "(\<forall>v ss. parseStats v = Some ss \<longrightarrow> (\<forall>s \<in> set ss. percentage s \<in> {0, 25, 50, 75, 100}))
        \<and> loadTodoApp parseTodos parseStats now storage = Inr (loaded, ss')"
    and s: "s \<in> set ss'"
  from h loadTodoApp_cases [of parseTodos parseStats now storage loaded ss']
  have "ss' = initialStats now \<or> (\<exists>v. parseStats v = Some ss')" by simp
  then show "percentage s \<in> {0, 25, 50, 75, 100}"
  proof
    assume "ss' = initialStats now"
    with s initialStats_percentage [of s now] show ?thesis by simp
  next
    assume "\<exists>v. parseStats v = Some ss'"
    with h s show ?thesis by blast
  qed
next
  fix s
  assume h: "(\<forall>v ss. parseStats v = Some ss \<longrightarrow> (\<forall>s \<in> set ss. percentage s \<in> {0, 25, 50, 75, 100}))
        \<and> (\<forall>s \<in> set initStats. percentage s \<in> {0, 25, 50, 75, 100})"
    and s: "s \<in> set (mountContributionMap parseStats initStats storage)"
  from mountContributionMap_cases [of parseStats initStats storage]
  show "percentage s \<in> {0, 25, 50, 75, 100}"
  proof
    assume "mountContributionMap parseStats initStats storage = initStats"
    with h s show ?thesis by simp
  next
    assume "\<exists>v. parseStats v = Some (mountContributionMap parseStats initStats storage)"
    with h s show ?thesis by blast
  qed
next
  assume "today \<notin> set (map date prevStats)"
  then show "updateContributionMap True today prevStats
          = prevStats @ [\<lparr>date = today, completed = 1, total = 1, percentage = 100\<rparr>]"
    by (simp add: updateContributionMap_absent)
next
  assume "today \<notin> set (map date prevStats)"
  then show "updateContributionMap False today prevStats = prevStats"
    by (simp add: updateContributionMap_absent)
next
  assume "k < length prevStats \<and> date (prevStats ! k) = today \<and> (\<forall>j < k. date (prevStats ! j) \<noteq> today)"
  then show "updateContributionMap increment today prevStats =
          prevStats[k := (prevStats ! k)\<lparr>
            completed := (if increment then completed (prevStats ! k) + 1
                          else max (completed (prevStats ! k) - 1) 0),
            percentage := of_int (if increment then completed (prevStats ! k) + 1
                                  else max (completed (prevStats ! k) - 1) 0)
                          / of_int (max (total (prevStats ! k)) 1) * 100\<rparr>]"
    using updateContributionMap_present [of k prevStats today increment] by blast
qed

theorem percentage_operations_witness:
  "\<lparr>date = ''2026-11-02'', completed = 1, total = 0, percentage = 25\<rparr>
     \<in> set (updateStats ''2026-11-02''
          [\<lparr>todo_id = ''a'', todo_text = [0x61], todo_completed = True, todo_date = ''2026-11-02''\<rparr>]
          [emptyStat ''2026-11-02''])
   \<and> emptyStat (format_ISO 20759) \<in> set (initialStats 20759)
   \<and> percentage (emptyStat (format_ISO 20759)) = 0
   \<and> percentage \<lparr>date = ''2026-11-02'', completed = 1, total = 0, percentage = 25\<rparr>
       \<in> {0, 25, 50, 75, 100}
   \<and> loadTodoApp (\<lambda>v. None)
        (\<lambda>v. if v = ''[stored]'' then Some [\<lparr>date = ''2026-11-02'', completed = 1, total = 0, percentage = 25\<rparr>] else None)
        20759 [''stats'' \<mapsto> ''[stored]'']
       = Inr ([], [\<lparr>date = ''2026-11-02'', completed = 1, total = 0, percentage = 25\<rparr>])
   \<and> mountContributionMap
        (\<lambda>v. if v = ''[stored]'' then Some [\<lparr>date = ''2026-11-02'', completed = 1, total = 0, percentage = 25\<rparr>] else None)
        [emptyStat ''2026-11-01''] [''stats'' \<mapsto> ''[stored]'']
       = [\<lparr>date = ''2026-11-02'', completed = 1, total = 0, percentage = 25\<rparr>]
   \<and> ''2026-11-03'' \<notin> set (map date [\<lparr>date = ''2026-11-02'', completed = 1, total = 0, percentage = 25\<rparr>])
   \<and> updateContributionMap True ''2026-11-03'' [\<lparr>date = ''2026-11-02'', completed = 1, total = 0, percentage = 25\<rparr>]
       = [\<lparr>date = ''2026-11-02'', completed = 1, total = 0, percentage = 25\<rparr>,
          \<lparr>date = ''2026-11-03'', completed = 1, total = 1, percentage = 100\<rparr>]
   \<and> date ([\<lparr>date = ''2026-11-02'', completed = 1, total = 0, percentage = 25\<rparr>] ! 0) = ''2026-11-02''
   \<and> updateContributionMap False ''2026-11-02'' [\<lparr>date = ''2026-11-02'', completed = 1, total = 0, percentage = 25\<rparr>]
       = [\<lparr>date = ''2026-11-02'', completed = 0, total = 0, percentage = 0\<rparr>]"
proof -
  let ?D = "\<lparr>date = ''2026-11-02'', completed = 1, total = 0, percentage = 25\<rparr>"
  let ?P = "\<lambda>v. if v = ''[stored]'' then Some [?D] else None"
  let ?ts = "[\<lparr>todo_id = ''a'', todo_text = [0x61], todo_completed = True, todo_date = ''2026-11-02''\<rparr>]"
  have h1: "?D \<in> set (updateStats ''2026-11-02'' ?ts [emptyStat ''2026-11-02''])"
    by code_simp
  have h2: "emptyStat (format_ISO 20759) \<in> set (initialStats 20759)"
    by (rule initialStats_today)
  have h3: "\<forall>v ss. ?P v = Some ss \<longrightarrow> (\<forall>s \<in> set ss. percentage s \<in> {0, 25, 50, 75, 100})"
    by (auto split: if_splits)
  have h4: "loadTodoApp (\<lambda>v. None) ?P 20759 [''stats'' \<mapsto> ''[stored]''] = Inr ([], [?D])"
    by (simp add: loadTodoApp_def truthy_def)
  have h5: "mountContributionMap ?P [emptyStat ''2026-11-01''] [''stats'' \<mapsto> ''[stored]''] = [?D]"
    by (simp add: mountContributionMap_def truthy_def LOCAL_STORAGE_KEY_def)
  have h6: "''2026-11-03'' \<notin> set (map date [?D])"
    by simp
  have h7: "0 < length [?D] \<and> date ([?D] ! 0) = ''2026-11-02'' \<and> (\<forall>j < (0::nat). date ([?D] ! j) \<noteq> ''2026-11-02'')"
    by simp
  note a = percentage_operations [where today = "''2026-11-02''" and ts = ?ts
      and stats = "[emptyStat ''2026-11-02'']" and now = 20759 and parseStats = ?P
      and parseTodos = "\<lambda>v. None" and storage = "[''stats'' \<mapsto> ''[stored]'']"
      and loaded = "[]" and ss' = "[?D]" and initStats = "[emptyStat ''2026-11-01'']"
      and prevStats = "[?D]" and k = 0 and increment = False]
  note b = percentage_operations [where today = "''2026-11-03''" and prevStats = "[?D]"]
  have c1: "percentage (emptyStat (format_ISO 20759)) = 0"
    using a h2 by blast
  have c2: "updateContributionMap True ''2026-11-03'' [?D]
       = [?D, \<lparr>date = ''2026-11-03'', completed = 1, total = 1, percentage = 100\<rparr>]"
    using b h6 by simp
  have c3: "updateContributionMap False ''2026-11-02'' [?D]
       = [\<lparr>date = ''2026-11-02'', completed = 0, total = 0, percentage = 0\<rparr>]"
    using a h7 by simp
  note a3 = a [THEN conjunct2, THEN conjunct2, THEN conjunct1]
  note a4 = a [THEN conjunct2, THEN conjunct2, THEN conjunct2, THEN conjunct1]
  have c4: "\<forall>s \<in> set [?D]. percentage s \<in> {0, 25, 50, 75, 100}"
    by (rule a3 [THEN mp]) (rule conjI [OF h3 h4])
  have i: "\<forall>s \<in> set [emptyStat ''2026-11-01'']. percentage s \<in> {0, 25, 50, 75, 100}"
    by (simp add: emptyStat_def)
  have c5: "\<forall>s \<in> set (mountContributionMap ?P [emptyStat ''2026-11-01''] [''stats'' \<mapsto> ''[stored]'']).
      percentage s \<in> {0, 25, 50, 75, 100}"
    by (rule a4 [THEN mp]) (rule conjI [OF h3 i])
  from c4 have c6: "percentage ?D \<in> {0, 25, 50, 75, 100}" by simp
  from h1 h2 h4 h5 h6 c1 c2 c3 c6 show ?thesis by simp
qed

text \<open>
  C5 as stated fails for \<open>updateContributionMap\<close>: after one completed task today the
  recomputed entry of today has \<open>completed = 1\<close> and \<open>total = 0\<close>, and an increment stores
  the percentage 200.
\<close>

theorem percentage_counterexample:
  "updateContributionMap True ''2026-11-02''
     (updateStats ''2026-11-02''
        [\<lparr>todo_id = ''a'', todo_text = [0x61], todo_completed = True, todo_date = ''2026-11-02''\<rparr>]
        (updateStats ''2026-11-02'' [] []))
   = [\<lparr>date = ''2026-11-02'', completed = 2, total = 0, percentage = 200\<rparr>]
   \<and> (200::rat) \<notin> {0, 25, 50, 75, 100}"
  by code_simp

section \<open>Loading malformed state\<close>

text \<open>
  C9 at a stored value that \<open>JSON.parse\<close> rejects. Under the keys \<open>todos\<close> and \<open>stats\<close> the
  mount effect of \<open>TodoApp\<close> ends with the \<open>SyntaxError\<close>: nothing catches it, and no
  default is set. The component \<open>ContributionMap\<close> catches the exception of either key it
  reads and keeps the stat list it was initialised with.
\<close>

theorem load_malformed:
  "(truthy (storage ''todos'') \<and> parseTodos (the (storage ''todos'')) = None \<longrightarrow>
      loadTodoApp parseTodos parseStats now storage = Inl SyntaxError)
   \<and> (truthy (storage ''stats'') \<and> parseStats (the (storage ''stats'')) = None \<longrightarrow>
      loadTodoApp parseTodos parseStats now storage = Inl SyntaxError)
   \<and> (truthy (storage LOCAL_STORAGE_KEY) \<and> parseStats (the (storage LOCAL_STORAGE_KEY)) = None \<longrightarrow>
      mountContributionMap parseStats initStats storage = initStats)
   \<and> (\<not> truthy (storage LOCAL_STORAGE_KEY) \<and> truthy (storage ''stats'')
        \<and> parseStats (the (storage ''stats'')) = None \<longrightarrow>
      mountContributionMap parseStats initStats storage = initStats)"
  by (auto simp: loadTodoApp_def mountContributionMap_def Let_def split: option.splits)

theorem load_malformed_witness:
  "truthy ([''todos'' \<mapsto> ''{''] ''todos'')
   \<and> (if the ([''todos'' \<mapsto> ''{''] ''todos'') = ''[]'' then Some [] else None) = (None :: Todo list option)
   \<and> loadTodoApp (\<lambda>v. if v = ''[]'' then Some [] else None) (\<lambda>v. if v = ''[]'' then Some [] else None)
        20759 [''todos'' \<mapsto> ''{''] = Inl SyntaxError
   \<and> truthy ([''stats'' \<mapsto> ''{''] ''stats'')
   \<and> loadTodoApp (\<lambda>v. if v = ''[]'' then Some [] else None) (\<lambda>v. if v = ''[]'' then Some [] else None)
        20759 [''stats'' \<mapsto> ''{''] = Inl SyntaxError
   \<and> truthy ([LOCAL_STORAGE_KEY \<mapsto> ''{''] LOCAL_STORAGE_KEY)
   \<and> mountContributionMap (\<lambda>v. if v = ''[]'' then Some [] else None) [emptyStat ''2026-11-02'']
        [LOCAL_STORAGE_KEY \<mapsto> ''{''] = [emptyStat ''2026-11-02'']
   \<and> \<not> truthy ([''stats'' \<mapsto> ''{''] LOCAL_STORAGE_KEY)
   \<and> mountContributionMap (\<lambda>v. if v = ''[]'' then Some [] else None) [emptyStat ''2026-11-02'']
        [''stats'' \<mapsto> ''{''] = [emptyStat ''2026-11-02'']"
proof -
  let ?P = "\<lambda>v. if v = ''[]'' then Some ([] :: Todo list) else None"
  let ?Q = "\<lambda>v. if v = ''[]'' then Some ([] :: DailyStats list) else None"
  have t: "truthy ([''todos'' \<mapsto> ''{''] ''todos'')" "truthy ([''stats'' \<mapsto> ''{''] ''stats'')"
    "truthy ([LOCAL_STORAGE_KEY \<mapsto> ''{''] LOCAL_STORAGE_KEY)"
    "\<not> truthy ([''stats'' \<mapsto> ''{''] LOCAL_STORAGE_KEY)"
    by (simp_all add: truthy_def LOCAL_STORAGE_KEY_def)
  note a = load_malformed [where storage = "[''todos'' \<mapsto> ''{'']" and parseTodos = ?P and parseStats = ?Q
      and now = 20759]
  note b = load_malformed [where storage = "[''stats'' \<mapsto> ''{'']" and parseTodos = ?P and parseStats = ?Q
      and now = 20759 and initStats = "[emptyStat ''2026-11-02'']"]
  note c = load_malformed [where storage = "[LOCAL_STORAGE_KEY \<mapsto> ''{'']" and parseStats = ?Q
      and initStats = "[emptyStat ''2026-11-02'']"]
  have 1: "loadTodoApp ?P ?Q 20759 [''todos'' \<mapsto> ''{''] = Inl SyntaxError"
    using a t(1) by simp
  have 2: "loadTodoApp ?P ?Q 20759 [''stats'' \<mapsto> ''{''] = Inl SyntaxError"
    using b t(2) by simp
  have 3: "mountContributionMap ?Q [emptyStat ''2026-11-02''] [LOCAL_STORAGE_KEY \<mapsto> ''{'']
      = [emptyStat ''2026-11-02'']"
    using c t(3) by simp
  have 4: "mountContributionMap ?Q [emptyStat ''2026-11-02''] [''stats'' \<mapsto> ''{'']
      = [emptyStat ''2026-11-02'']"
    using b t(2) t(4) by simp
  from t 1 2 3 4 show ?thesis by simp
qed

section \<open>The two copies of the renderer\<close>

lemma weekStep_part0_eq: "weekStep_part0 = weekStep"
  by (intro ext) (simp add: weekStep_part0_def weekStep_def)

lemma monthStep_part0_eq: "monthStep_part0 = monthStep"
  by (intro ext) (simp add: monthStep_part0_def monthStep_def)

lemma allDates_part0_eq: "allDates_part0 now = allDates now"
  by (simp add: allDates_part0_def allDates_def startDate_part0_def startDate_def
      endDate_part0_def endDate_def)

text \<open>
  C10. For the same stat list and the same current date, the copy of the renderer in
  \<open>components/contribution-map.tsx\<close> and the copy in \<open>unnamed/part_000\<close> compute the same
  week columns, the same month labels, the same colour class and tooltip for a day, and
  the same grid of cells.
\<close>

theorem renderers_agree:
  "weeks_part0 now = weeks now
   \<and> months_part0 now = months now
   \<and> getColorClass_part0 day = getColorClass day
   \<and> formatTooltip_part0 day d = formatTooltip day d
   \<and> statsMap_part0 stats = statsMap stats
   \<and> renderCell_part0 stats now d = renderCell stats now d
   \<and> renderGrid_part0 stats now = renderGrid stats now"
proof -
  have w: "weeks_part0 now = weeks now"
    by (simp add: weeks_part0_def weeks_def weekStep_part0_eq allDates_part0_eq
        endDate_part0_def endDate_def)
  have m: "months_part0 now = months now"
    by (simp add: months_part0_def months_def monthStep_part0_eq allDates_part0_eq)
  have c: "getColorClass_part0 x = getColorClass x" for x
    by (simp add: getColorClass_part0_def getColorClass_def)
  have t: "formatTooltip_part0 x y = formatTooltip x y" for x y
    by (simp add: formatTooltip_part0_def formatTooltip_def)
  have s: "statsMap_part0 stats = statsMap stats"
    by (simp add: statsMap_part0_def statsMap_def)
  have r: "renderCell_part0 stats now y = renderCell stats now y" for y
    by (simp add: renderCell_part0_def renderCell_def Let_def c t s endDate_part0_def endDate_def)
  have g: "renderGrid_part0 stats now = renderGrid stats now"
    by (simp add: renderGrid_part0_def renderGrid_def w r)
  from w m c t s r g show ?thesis by simp
qed

section \<open>Calendar dates: known days\<close>

text \<open>The day numbers of some known dates, as a check of the calendar model.\<close>

lemma civil_known_days:
  "civil 0 = (1970, 1, 1) \<and> civil (- 1) = (1969, 12, 31) \<and> civil 11016 = (2000, 2, 29)
   \<and> civil 20759 = (2026, 11, 2) \<and> getDay 0 = 4 \<and> format_long 20759 = ''November 2, 2026''"
  by code_simp

section \<open>Calendar Renderer: week columns\<close>

lemma getDay_add: "getDay (d + i) = (getDay d + i) mod 7"
  by (simp add: getDay_def mod_simps add.assoc add.left_commute add.commute)

lemma map_addDays_upto: "map (\<lambda>i. addDays d i) [1..k] = [d + 1..d + k]"
proof (cases "1 \<le> k")
  case False
  then show ?thesis by simp
next
  case True
  then show ?thesis
  proof (induction k rule: int_ge_induct)
    case base
    show ?case by (simp add: addDays_def)
  next
    case (step k)
    have "[1..k + 1] = [1..k] @ [k + 1]"
      using step.hyps upto_rec2 [of 1 "k + 1"] by simp
    moreover have "[d + 1..d + (k + 1)] = [d + 1..d + k] @ [d + (k + 1)]"
      using step.hyps upto_rec2 [of "d + 1" "d + (k + 1)"] by (simp add: add.assoc)
    ultimately show ?case using step.IH by (simp add: addDays_def)
  qed
qed

lemma weekStep_plain:
  "d \<noteq> e \<Longrightarrow> \<not> (getDay d = 0 \<and> cur \<noteq> []) \<Longrightarrow> weekStep e d (ws, cur) = (ws, cur @ [d])"
  by (auto simp: weekStep_def isSameDay_def Let_def)

lemma weekStep_push:
  "d \<noteq> e \<Longrightarrow> getDay d = 0 \<Longrightarrow> cur \<noteq> [] \<Longrightarrow> weekStep e d (ws, cur) = (ws @ [cur], [d])"
  by (simp add: weekStep_def isSameDay_def Let_def)

lemma weekStep_end_plain:
  "\<not> (getDay e = 0 \<and> cur \<noteq> []) \<Longrightarrow>
   weekStep e e (ws, cur) =
     (ws @ [cur @ [e] @ [e + 1..e + (6 - int (length cur))]],
      cur @ [e] @ [e + 1..e + (6 - int (length cur))])"
  by (auto simp: weekStep_def isSameDay_def Let_def map_addDays_upto)

lemma weekStep_end_push:
  "getDay e = 0 \<Longrightarrow> cur \<noteq> [] \<Longrightarrow>
   weekStep e e (ws, cur) = (ws @ [cur, [e..e + 6]], [e..e + 6])"
  by (simp add: weekStep_def isSameDay_def Let_def map_addDays_upto upto_rec1 [of e "e + 6"])

lemma fold_weekStep_run:
  assumes "a \<le> b" "b < e" "\<forall>d. a < d \<and> d \<le> b \<longrightarrow> getDay d \<noteq> 0"
  shows "fold (weekStep e) [a..b] (ws, cur) =
     (if getDay a = 0 \<and> cur \<noteq> [] then (ws @ [cur], [a..b]) else (ws, cur @ [a..b]))"
  using assms
proof (induction b rule: int_ge_induct)
  case base
  then show ?case
    by (auto simp: weekStep_plain weekStep_push)
next
  case (step b)
  have split: "[a..b + 1] = [a..b] @ [b + 1]"
    using step.hyps upto_rec2 [of a "b + 1"] by simp
  have ih: "fold (weekStep e) [a..b] (ws, cur) =
     (if getDay a = 0 \<and> cur \<noteq> [] then (ws @ [cur], [a..b]) else (ws, cur @ [a..b]))"
    using step by simp
  have ns: "getDay (b + 1) \<noteq> 0" using step.prems(2) step.hyps by simp
  have ne: "b + 1 \<noteq> e" using step.prems(1) by simp
  show ?case
    unfolding split fold_append comp_def ih
    using ns ne by (simp add: weekStep_plain)
qed

lemma getDay_within_week:
  "getDay a = 0 \<Longrightarrow> a < d \<Longrightarrow> d \<le> a + 6 \<Longrightarrow> getDay d \<noteq> 0"
  unfolding getDay_def by presburger

lemma fold_weekStep_week:
  assumes "getDay a = 0" "cur \<noteq> []" "a + 6 < e"
  shows "fold (weekStep e) [a..a + 6] (ws, cur) = (ws @ [cur], [a..a + 6])"
proof -
  have "\<forall>d. a < d \<and> d \<le> a + 6 \<longrightarrow> getDay d \<noteq> 0"
    using assms(1) getDay_within_week by blast
  from fold_weekStep_run [OF _ assms(3) this, of ws cur] assms show ?thesis by simp
qed

lemma fold_weekStep_weeks:
  assumes "getDay a = 0" "cur \<noteq> []" "a + 7 * int n + 6 < e"
  shows "fold (weekStep e) [a..a + 7 * int n + 6] (ws, cur) =
     (ws @ cur # map (\<lambda>j. [a + 7 * int j..a + 7 * int j + 6]) [0..<n],
      [a + 7 * int n..a + 7 * int n + 6])"
  using assms(3)
proof (induction n)
  case 0
  then show ?case using fold_weekStep_week [OF assms(1,2), of e ws] by simp
next
  case (Suc n)
  let ?b = "a + 7 * int n + 6"
  let ?c = "a + 7 * int (Suc n)"
  have split: "[a..?c + 6] = [a..?b] @ [?c..?c + 6]"
    using upto_split2 [of a ?b "?c + 6"] by (simp add: algebra_simps)
  have ih: "fold (weekStep e) [a..?b] (ws, cur) =
     (ws @ cur # map (\<lambda>j. [a + 7 * int j..a + 7 * int j + 6]) [0..<n],
      [a + 7 * int n..a + 7 * int n + 6])"
    using Suc by simp
  have sun: "getDay ?c = 0"
    using assms(1) unfolding getDay_def by (simp add: algebra_simps) presburger
  have ne: "[a + 7 * int n..a + 7 * int n + 6] \<noteq> []" by simp
  show ?case
    unfolding split fold_append comp_def ih
    using fold_weekStep_week [OF sun ne Suc.prems] by simp
qed

lemma fold_weekStep_last:
  assumes "getDay a = 0" "cur \<noteq> []" "a \<le> e" "e \<le> a + 6"
  shows "fold (weekStep e) [a..e] (ws, cur) = (ws @ [cur, [a..a + 6]], [a..a + 6])"
proof (cases "a = e")
  case True
  with assms show ?thesis by (simp add: weekStep_end_push)
next
  case False
  with assms have lt: "a \<le> e - 1" by simp
  have split: "[a..e] = [a..e - 1] @ [e]"
    using assms(3) by (rule upto_rec2)
  have "\<forall>d. a < d \<and> d \<le> e - 1 \<longrightarrow> getDay d \<noteq> 0"
    using assms(1,4) getDay_within_week [of a] by auto
  from fold_weekStep_run [OF lt _ this, of e ws cur] assms
  have run: "fold (weekStep e) [a..e - 1] (ws, cur) = (ws @ [cur], [a..e - 1])" by simp
  have ns: "getDay e \<noteq> 0"
    using assms False getDay_within_week [of a e] by simp
  have len: "int (length [a..e - 1]) = e - a" using lt by simp
  have "[a..e - 1] @ [e] @ [e + 1..e + (6 - (e - a))] = [a..a + 6]"
  proof -
    have "[a..a + 6] = [a..e] @ [e + 1..a + 6]"
      using assms upto_split2 [of a e "a + 6"] by simp
    moreover have "e + (6 - (e - a)) = a + 6" by simp
    ultimately show ?thesis using split by (simp add: add.commute)
  qed
  then show ?thesis
    unfolding split fold_append comp_def run
    using ns by (simp add: weekStep_end_plain len del: length_upto)
qed

lemma getDay_range: "0 \<le> getDay d \<and> getDay d \<le> 6"
  by (simp add: getDay_def)

lemma getDay_first_column:
  "s < d \<Longrightarrow> d \<le> s + 6 - getDay s \<Longrightarrow> getDay d \<noteq> 0"
  unfolding getDay_def by presburger

lemma getDay_next_sunday: "getDay (s + 7 - getDay s) = 0"
  unfolding getDay_def by presburger

lemma getDay_year_before: "getDay (d - 364) = getDay d"
  unfolding getDay_def by presburger

text \<open>
  The grid for any current date: the first column runs from the start date to the first
  Saturday, and 52 columns of seven days follow, the last of them reaching past today
  when today is not a Saturday.
\<close>

lemma weeks_structure:
  "weeks now =
     [now - 364..now - 364 + 6 - getDay now]
     # map (\<lambda>j. [now - 357 - getDay now + 7 * int j..now - 357 - getDay now + 7 * int j + 6]) [0..<52]"
proof -
  define s where "s = now - 364"
  define g where "g = getDay now"
  define d0 where "d0 = s + 7 - g"
  have gs: "getDay s = g" by (simp add: s_def g_def getDay_year_before)
  have gr: "0 \<le> g" "g \<le> 6" using getDay_range [of now] by (simp_all add: g_def)
  have sun: "getDay d0 = 0" using getDay_next_sunday [of s] by (simp add: d0_def gs)
  let ?A = "[s..s + 6 - g]"
  let ?wk = "\<lambda>j. [d0 + 7 * int j..d0 + 7 * int j + 6]"
  have all: "allDates now = ?A @ [d0..d0 + 7 * int 50 + 6] @ [d0 + 357..now]"
  proof -
    have "[s..now] = ?A @ [d0..now]"
      using upto_split2 [of s "s + 6 - g" now] gr by (simp add: s_def d0_def algebra_simps)
    moreover have "[d0..now] = [d0..d0 + 356] @ [d0 + 357..now]"
      using upto_split2 [of d0 "d0 + 356" now] gr by (simp add: s_def d0_def algebra_simps)
    moreover have "d0 + 7 * int 50 + 6 = d0 + 356" by simp
    moreover have "allDates now = [s..now]"
      by (simp add: allDates_def eachDayOfInterval_def startDate_def endDate_def startOfDay_def
          subDays_def s_def)
    ultimately show ?thesis by (simp only: )
  qed
  have neA: "?A \<noteq> []" using gr by simp
  have stepA: "fold (weekStep now) ?A ([], []) = ([], ?A)"
  proof -
    have "\<forall>d. s < d \<and> d \<le> s + 6 - g \<longrightarrow> getDay d \<noteq> 0"
      using getDay_first_column [of s] by (simp add: gs)
    from fold_weekStep_run [OF _ _ this, of now "[]" "[]"] gr show ?thesis
      by (simp add: s_def)
  qed
  have stepB: "fold (weekStep now) [d0..d0 + 7 * int 50 + 6] ([], ?A) =
      ([] @ ?A # map ?wk [0..<50], ?wk 50)"
    using gr by (intro fold_weekStep_weeks [OF sun neA]) (simp add: d0_def s_def)
  have stepC: "fold (weekStep now) [d0 + 357..now] (?A # map ?wk [0..<50], ?wk 50) =
      ((?A # map ?wk [0..<50]) @ [?wk 50, [d0 + 357..d0 + 357 + 6]], [d0 + 357..d0 + 357 + 6])"
  proof (rule fold_weekStep_last)
    show "getDay (d0 + 357) = 0" using sun unfolding getDay_def by presburger
    show "?wk 50 \<noteq> []" by simp
    show "d0 + 357 \<le> now" using gr by (simp add: d0_def s_def)
    show "now \<le> d0 + 357 + 6" using gr by (simp add: d0_def s_def)
  qed
  have "weeks now = (?A # map ?wk [0..<50]) @ [?wk 50, [d0 + 357..d0 + 357 + 6]]"
    unfolding weeks_def all fold_append comp_def endDate_def startOfDay_def
    using stepA stepB stepC by simp
  also have "\<dots> = ?A # map ?wk [0..<52]"
  proof -
    have "[0..<52] = [0..<50] @ [50, 51]"
      by (simp add: upt_rec [of 50] upt_rec [of 51] upt_add_eq_append [of 0 50 2, simplified])
    then show ?thesis by simp
  qed
  finally show ?thesis
    by (simp add: s_def d0_def g_def algebra_simps)
qed

lemma allDates_upto: "allDates now = [now - 364..now]"
  by (simp add: allDates_def eachDayOfInterval_def startDate_def endDate_def startOfDay_def
      subDays_def)

lemma allDates_length:
  "length (allDates now) = 365 \<and> hd (allDates now) = now - 364 \<and> last (allDates now) = now"
proof -
  have l: "[now - 364..now] = [now - 364..now - 1] @ [now]"
    by (rule upto_rec2) simp
  have h: "[now - 364..now] = (now - 364) # [now - 364 + 1..now]"
    by (rule upto_rec1) simp
  have "length (allDates now) = 365"
    by (simp add: allDates_upto)
  moreover have "hd (allDates now) = now - 364"
    unfolding allDates_upto by (subst h) simp
  moreover have "last (allDates now) = now"
    unfolding allDates_upto by (subst l) simp
  ultimately show ?thesis by simp
qed

lemma weeks_hd: "hd (weeks now) = [now - 364..now - 364 + 6 - getDay now]"
  unfolding weeks_structure by simp

lemma weeks_nth_Suc:
  "j < 52 \<Longrightarrow>
   weeks now ! Suc j = [now - 357 - getDay now + 7 * int j..now - 357 - getDay now + 7 * int j + 6]"
  unfolding weeks_structure by simp

lemma weeks_lengths: "map length (weeks now) = nat (7 - getDay now) # replicate 52 7"
proof -
  have "nat (now - 364 + 6 - getDay now - (now - 364) + 1) = nat (7 - getDay now)"
    by (simp add: algebra_simps)
  moreover have "map length (map (\<lambda>j. [now - 357 - getDay now + 7 * int j..now - 357 - getDay now + 7 * int j + 6]) [0..<52])
      = replicate 52 7"
    by (simp add: comp_def map_replicate_const)
  ultimately show ?thesis
    unfolding weeks_structure by (simp only: list.map length_upto)
qed

lemma concat_week_columns:
  "concat (map (\<lambda>j. [a + 7 * int j..a + 7 * int j + 6]) [0..<n]) = [a..a + 7 * int n - 1]"
proof (induction n)
  case 0
  show ?case by simp
next
  case (Suc n)
  have "[a..a + 7 * int (Suc n) - 1] = [a..a + 7 * int n - 1] @ [a + 7 * int n..a + 7 * int n + 6]"
  proof (cases n)
    case 0
    then show ?thesis by (simp add: add.commute)
  next
    case (Suc m)
    then have "a \<le> a + 7 * int n - 1" by simp
    from upto_split2 [OF this, of "a + 7 * int n + 6"] show ?thesis
      by (simp add: algebra_simps)
  qed
  with Suc show ?case by simp
qed

lemma weeks_concat:
  "concat (weeks now) = allDates now @ [now + 1..now + 6 - getDay now]"
proof -
  define g where "g = getDay now"
  have gr: "0 \<le> g" "g \<le> 6" using getDay_range [of now] by (simp_all add: g_def)
  have "concat (weeks now) = [now - 364..now - 364 + 6 - g] @ [now - 357 - g..now - 357 - g + 7 * int 52 - 1]"
    unfolding weeks_structure g_def by (simp only: concat.simps concat_week_columns)
  also have "\<dots> = [now - 364..now + 6 - g]"
    using upto_split2 [of "now - 364" "now - 364 + 6 - g" "now + 6 - g"] gr
    by (simp add: algebra_simps)
  also have "\<dots> = [now - 364..now] @ [now + 1..now + 6 - g]"
    using upto_split2 [of "now - 364" now "now + 6 - g"] gr by simp
  finally show ?thesis by (simp add: allDates_upto g_def)
qed

lemma renderCell_future:
  "now < d \<Longrightarrow>
   isFutureDate (renderCell stats now d) \<and> colorClass (renderCell stats now d) = ''bg-transparent''
   \<and> tooltipContent (renderCell stats now d) = None"
  by (simp add: renderCell_def Let_def endDate_def startOfDay_def)

lemma renderCell_past:
  "d \<le> now \<Longrightarrow>
   \<not> isFutureDate (renderCell stats now d)
   \<and> colorClass (renderCell stats now d) = getColorClass (statsMap stats (format_ISO d))"
  by (simp add: renderCell_def Let_def endDate_def startOfDay_def)

section \<open>Calendar Renderer: month labels\<close>

lemma div_bounds: "0 < k \<Longrightarrow> k * (x div k) \<le> x \<and> x < k * (x div k) + k" for x k :: int
  by (metis add.commute mult.commute div_mult_mod_eq pos_mod_bound pos_mod_sign add_le_cancel_left add_less_cancel_left le_add_same_cancel1)

lemma civil_month_pos: "1 \<le> fst (snd (civil z))"
proof -
  define doe where "doe = (z + 719468) mod 146097"
  define a where "a = doe div 1460"
  define b where "b = doe div 36524"
  define c where "c = doe div 146096"
  define yoe where "yoe = (doe - a + b - c) div 365"
  define y4 where "y4 = yoe div 4"
  define y100 where "y100 = yoe div 100"
  define doy where "doy = doe - (365 * yoe + y4 - y100)"
  define mp where "mp = (5 * doy + 2) div 153"
  have doe: "0 \<le> doe" "doe < 146097" by (simp_all add: doe_def)
  have a: "1460 * a \<le> doe" "doe < 1460 * a + 1460"
    using div_bounds [of 1460 doe] by (simp_all add: a_def)
  have b: "36524 * b \<le> doe" "doe < 36524 * b + 36524"
    using div_bounds [of 36524 doe] by (simp_all add: b_def)
  have c: "146096 * c \<le> doe" "doe < 146096 * c + 146096"
    using div_bounds [of 146096 doe] by (simp_all add: c_def)
  have yoe: "365 * yoe \<le> doe - a + b - c" "doe - a + b - c < 365 * yoe + 365"
    using div_bounds [of 365 "doe - a + b - c"] by (simp_all add: yoe_def)
  have y4: "4 * y4 \<le> yoe" "yoe < 4 * y4 + 4"
    using div_bounds [of 4 yoe] by (simp_all add: y4_def)
  have y100: "100 * y100 \<le> yoe" "yoe < 100 * y100 + 100"
    using div_bounds [of 100 yoe] by (simp_all add: y100_def)
  have a0: "0 \<le> a" using a(2) doe(1) by linarith
  have b4: "0 \<le> b \<and> b \<le> 4" using b doe by linarith
  have c1: "0 \<le> c \<and> c \<le> 1" using c doe by linarith
  have h1: "1460 * y4 \<le> doe + 4" using y4(1) yoe(1) a0 b4 c1 by linarith
  have h2: "y4 \<le> a + 1" using h1 a(2) by linarith
  have h3: "- 1 \<le> yoe" using yoe(2) a(1) a0 b4 c1 doe by linarith
  have h4: "- 1 \<le> y100" using y100(2) h3 by linarith
  have lo: "- 6 \<le> doy" unfolding doy_def using yoe(1) h2 h4 a0 b4 c1 by linarith
  have mp: "- 1 \<le> mp"
    using div_bounds [of 153 "5 * doy + 2"] lo by (simp add: mp_def)
  have "fst (snd (civil z)) = (if mp < 10 then mp + 3 else mp - 9)"
    unfolding civil_def Let_def mp_def doy_def y4_def y100_def yoe_def a_def b_def c_def doe_def
    by (simp only: fst_conv snd_conv)
  with mp show ?thesis by auto
qed

lemma getMonth_nonneg: "0 \<le> getMonth z"
  using civil_month_pos [of z] by (simp add: getMonth_def)

lemma monthStep_snd: "snd (monthStep (i, d) st) = getMonth d"
  by (simp add: monthStep_def Let_def)

lemma monthStep_fst:
  "fst (monthStep (i, d) (ms, cm)) =
     ms @ (if getMonth d \<noteq> cm then [(format_MMM d, int i div 7)] else [])"
  by (simp add: monthStep_def Let_def)

lemma months_prefix:
  "fold monthStep (enumerate 0 [s..s + int n - 1]) ([], - 1) =
     (map (\<lambda>i. (format_MMM (s + int i), int i div 7))
        (filter (\<lambda>i. i = 0 \<or> getMonth (s + int i) \<noteq> getMonth (s + int i - 1)) [0..<n]),
      if n = 0 then - 1 else getMonth (s + int n - 1))"
proof (induction n)
  case 0
  show ?case by simp
next
  case (Suc n)
  have split: "[s..s + int (Suc n) - 1] = [s..s + int n - 1] @ [s + int n]"
    using upto_rec2 [of s "s + int n"] by simp
  have en: "enumerate 0 ([s..s + int n - 1] @ [s + int n])
      = enumerate 0 [s..s + int n - 1] @ [(n, s + int n)]"
    by (simp add: enumerate_append_eq)
  let ?st = "fold monthStep (enumerate 0 [s..s + int n - 1]) ([], - 1)"
  have st: "fold monthStep (enumerate 0 [s..s + int (Suc n) - 1]) ([], - 1)
      = monthStep (n, s + int n) ?st"
    unfolding split en by simp
  have cm: "getMonth (s + int n) \<noteq> snd ?st \<longleftrightarrow>
      n = 0 \<or> getMonth (s + int n) \<noteq> getMonth (s + int n - 1)"
    using getMonth_nonneg [of s] by (auto simp: Suc.IH)
  have "monthStep (n, s + int n) ?st
      = (fst (monthStep (n, s + int n) (fst ?st, snd ?st)), getMonth (s + int n))"
    using monthStep_snd [of n "s + int n" ?st] by (metis prod.collapse)
  also have "fst (monthStep (n, s + int n) (fst ?st, snd ?st))
      = fst ?st @ (if n = 0 \<or> getMonth (s + int n) \<noteq> getMonth (s + int n - 1)
                   then [(format_MMM (s + int n), int n div 7)] else [])"
    unfolding monthStep_fst cm ..
  finally show ?case
    unfolding st by (simp add: Suc.IH)
qed

text \<open>
  The labels for any current date: the day with index \<open>i\<close> of the enumeration gets a label
  exactly when it is the first day or its month differs from the month of the day
  before, and the index of the label is \<open>i div 7\<close>.
\<close>

lemma months_structure:
  "months now =
     map (\<lambda>i. (format_MMM (now - 364 + int i), int i div 7))
       (filter (\<lambda>i. i = 0 \<or> getMonth (now - 364 + int i) \<noteq> getMonth (now - 364 + int i - 1))
          [0..<365])"
proof -
  have "allDates now = [now - 364..now - 364 + int 365 - 1]"
    by (simp add: allDates_def eachDayOfInterval_def startDate_def endDate_def startOfDay_def
        subDays_def)
  then show ?thesis
    unfolding months_def by (simp only: months_prefix fst_conv)
qed

lemma months_label:
  assumes "i < 365" "getMonth (now - 364 + int i) \<noteq> getMonth (now - 364 + int i - 1)"
  shows "(format_MMM (now - 364 + int i), int i div 7) \<in> set (months now)"
proof -
  let ?P = "\<lambda>i. i = 0 \<or> getMonth (now - 364 + int i) \<noteq> getMonth (now - 364 + int i - 1)"
  have "i \<in> set (filter ?P [0..<365])" using assms by simp
  then have "(\<lambda>i. (format_MMM (now - 364 + int i), int i div 7)) i
      \<in> (\<lambda>i. (format_MMM (now - 364 + int i), int i div 7)) ` set (filter ?P [0..<365])"
    by (rule imageI)
  then show ?thesis unfolding months_structure set_map .
qed

text \<open>
  The column of a day in the grid: the day with index \<open>i\<close> of the enumeration is in the
  column \<open>(i + g) div 7\<close>, where \<open>g\<close> is the weekday of today, which is also the weekday
  of the first day.
\<close>

lemma weeks_column:
  assumes "i < 365"
  shows "now - 364 + int i \<in> set (weeks now ! nat ((int i + getDay now) div 7))"
proof -
  define g where "g = getDay now"
  have gr: "0 \<le> g" "g \<le> 6" using getDay_range [of now] by (simp_all add: g_def)
  define c where "c = (int i + g) div 7"
  have c: "7 * c \<le> int i + g" "int i + g < 7 * c + 7" and c0: "0 \<le> c" and c52: "c \<le> 52"
    using assms gr unfolding c_def by presburger+
  show ?thesis
  proof (cases "c = 0")
    case True
    with c gr show ?thesis
      by (simp add: weeks_structure g_def [symmetric] c_def [symmetric])
  next
    case False
    with c0 have pos: "0 < c" by simp
    then obtain k where k: "nat c = Suc k" by (cases "nat c") auto
    with c52 pos have k52: "k < 52" by linarith
    have ck: "c = int k + 1" using k pos by linarith
    show ?thesis
      using c k52 gr
      by (simp add: weeks_structure g_def [symmetric] c_def [symmetric] k ck)
  qed
qed

section \<open>Calendar Renderer: the grid on Monday 2 November 2026\<close>

text \<open>
  C3 on 2026-11-02, day 20759, a Monday. The enumeration has 365 days and ends today,
  the cells after today are the five days that fill the last column, and such a cell is
  marked as future and gets the transparent class. The first column holds the six days
  from Monday 2025-11-03 to Saturday 2025-11-08 and has no seventh row; the other 52
  columns have seven rows.
\<close>

theorem weeks_monday:
  "format_ISO 20759 = ''2026-11-02'' \<and> getDay 20759 = 1
   \<and> length (allDates 20759) = 365 \<and> last (allDates 20759) = 20759
   \<and> map length (weeks 20759) = 6 # replicate 52 7
   \<and> hd (weeks 20759) = [20395, 20396, 20397, 20398, 20399, 20400]
   \<and> format_ISO 20395 = ''2025-11-03'' \<and> getDay 20395 = 1
   \<and> concat (weeks 20759) = allDates 20759 @ [20760, 20761, 20762, 20763, 20764]
   \<and> isFutureDate (renderCell [] 20759 20760)
   \<and> colorClass (renderCell [] 20759 20760) = ''bg-transparent''"
proof -
  have f: "format_ISO 20759 = ''2026-11-02''" "format_ISO 20395 = ''2025-11-03''"
    by code_simp+
  have g: "getDay 20759 = 1" "getDay 20395 = 1"
    by (simp_all add: getDay_def)
  have h: "hd (weeks 20759) = [20395, 20396, 20397, 20398, 20399, 20400]"
    unfolding weeks_hd g by simp
  have u: "[20759 + 1..20759 + 6 - 1] = [20760, 20761, 20762, 20763, 20764 :: int]"
    by simp
  show ?thesis
    using f g h allDates_length [of 20759] weeks_lengths [of 20759] weeks_concat [of 20759] u
      renderCell_future [of 20759 20760 "[]"]
    by simp
qed

text \<open>
  C4 on the same day. The label of February is triggered by 2026-02-01, day 20485, the
  day with index 90 of the enumeration: the index of the label is \<open>90 div 7 = 12\<close>,
  and the day is the first of column 13, after the Saturday that ends column 12.
\<close>

theorem months_monday:
  "allDates 20759 ! 90 = 20485 \<and> format_ISO 20485 = ''2026-02-01''
   \<and> getMonth 20484 = 0 \<and> getMonth 20485 = 1
   \<and> (''Feb'', 12) \<in> set (months 20759)
   \<and> weeks 20759 ! 12 = [20478, 20479, 20480, 20481, 20482, 20483, 20484]
   \<and> weeks 20759 ! 13 = [20485, 20486, 20487, 20488, 20489, 20490, 20491]"
proof -
  have f: "format_ISO 20485 = ''2026-02-01''" "format_MMM 20485 = ''Feb''"
    "getMonth 20484 = 0" "getMonth 20485 = 1"
    by code_simp+
  have a: "allDates 20759 ! 90 = 20485"
    unfolding allDates_upto by simp
  have g: "getDay 20759 = 1"
    by (simp add: getDay_def)
  have m: "(format_MMM (20759 - 364 + int 90), int 90 div 7) \<in> set (months 20759)"
    by (rule months_label) (simp_all add: f)
  have w: "weeks 20759 ! 12 = [20478, 20479, 20480, 20481, 20482, 20483, 20484]"
    "weeks 20759 ! 13 = [20485, 20486, 20487, 20488, 20489, 20490, 20491]"
    using weeks_nth_Suc [of 11 20759] weeks_nth_Suc [of 12 20759] by (simp_all add: g)
  from f a m w show ?thesis by simp
qed

end
